theory Spec2Isabelle
  imports Complex_Main "HOL-Library.AList"
begin

section \<open>Data model\<close>

subsection \<open>Errors\<close>

text \<open>
  The exceptions the numeric core can raise.  The specification's ShapeMismatch is
  numpy's \<open>ValueError\<close>, its IndexOutOfRange is \<open>IndexError\<close>; a missing dictionary
  key is \<open>KeyError\<close>, a Python float division by zero is \<open>ZeroDivisionError\<close>, and
  a local variable read before any branch has assigned it is \<open>UnboundLocalError\<close>.
\<close>

datatype error = ValueError | IndexError | KeyError | ZeroDivisionError | UnboundLocalError

definition bindE :: "error + 'a \<Rightarrow> ('a \<Rightarrow> error + 'b) \<Rightarrow> error + 'b" where
  "bindE r f = (case r of Inl e \<Rightarrow> Inl e | Inr x \<Rightarrow> f x)"

subsection \<open>Arrays\<close>

text \<open>
  A numpy array is its shape and its elements in row-major (C) order.  Floating-point
  numbers are idealised as reals throughout.
\<close>

record 'a ndarray =
  shape :: "nat list"
  data :: "'a list"

definition wfa :: "'a ndarray \<Rightarrow> bool" where
  "wfa A \<longleftrightarrow> length (data A) = prod_list (shape A)"

text \<open>Flat offset of a multi-index, and the multi-index of a flat offset.\<close>

fun ravel :: "nat list \<Rightarrow> nat list \<Rightarrow> nat" where
  "ravel (d # ds) (i # is) = i * prod_list ds + ravel ds is"
| "ravel _ _ = 0"

fun unravel :: "nat list \<Rightarrow> nat \<Rightarrow> nat list" where
  "unravel [] k = []"
| "unravel (d # ds) k = (k div prod_list ds) # unravel ds (k mod prod_list ds)"

definition inb :: "nat list \<Rightarrow> nat list \<Rightarrow> bool" where
  "inb sh idx \<longleftrightarrow> list_all2 (<) idx sh"

definition elem :: "'a ndarray \<Rightarrow> nat list \<Rightarrow> 'a" where
  "elem A idx = data A ! ravel (shape A) idx"

definition tabulate :: "nat list \<Rightarrow> (nat list \<Rightarrow> 'a) \<Rightarrow> 'a ndarray" where
  "tabulate sh f = \<lparr>shape = sh, data = map (\<lambda>k. f (unravel sh k)) [0..<prod_list sh]\<rparr>"

definition full :: "nat list \<Rightarrow> 'a \<Rightarrow> 'a ndarray" where
  "full sh v = \<lparr>shape = sh, data = replicate (prod_list sh) v\<rparr>"

definition amap :: "('a \<Rightarrow> 'b) \<Rightarrow> 'a ndarray \<Rightarrow> 'b ndarray" where
  "amap f A = \<lparr>shape = shape A, data = map f (data A)\<rparr>"


text \<open>
  A dictionary is an association list with distinct keys; \<open>d[k]\<close> raises \<open>KeyError\<close>
  when \<open>k\<close> is absent.
\<close>

definition lookup :: "(string \<times> 'v) list \<Rightarrow> string \<Rightarrow> error + 'v" where
  "lookup d k = (case map_of d k of None \<Rightarrow> Inl KeyError | Some v \<Rightarrow> Inr v)"

text \<open>A \<open>for\<close> loop over a list that threads a state and stops at the first exception.\<close>

fun foldE :: "('a \<Rightarrow> 's \<Rightarrow> error + 's) \<Rightarrow> 'a list \<Rightarrow> 's \<Rightarrow> error + 's" where
  "foldE f [] s = Inr s"
| "foldE f (x # xs) s = bindE (f x s) (foldE f xs)"

text \<open>A list comprehension whose element expression may raise.\<close>

fun mapE :: "('a \<Rightarrow> error + 'b) \<Rightarrow> 'a list \<Rightarrow> error + 'b list" where
  "mapE f [] = Inr []"
| "mapE f (x # xs) = bindE (f x) (\<lambda>y. bindE (mapE f xs) (\<lambda>ys. Inr (y # ys)))"

text \<open>Python's \<open>str\<close> on a non-negative integer.\<close>

definition digit_char :: "nat \<Rightarrow> char" where
  "digit_char d = ''0123456789'' ! d"

function str_nat :: "nat \<Rightarrow> string" where
  "str_nat n = (if n < 10 then [digit_char n] else str_nat (n div 10) @ [digit_char (n mod 10)])"
  by pat_completeness auto
termination
  by (relation "measure id") auto

declare str_nat.simps [simp del]

subsection \<open>The numpy and scipy operations the program calls\<close>

text \<open>
  Broadcasting: shapes are aligned at their last axis; two extents are compatible when
  they are equal or one of them is 1.  \<open>bshape\<close> works on reversed shapes.
\<close>

fun bshape :: "nat list \<Rightarrow> nat list \<Rightarrow> nat list option" where
  "bshape [] ys = Some ys"
| "bshape (x # xs) [] = Some (x # xs)"
| "bshape (x # xs) (y # ys) =
     (if x = y \<or> y = 1 then map_option ((#) x) (bshape xs ys)
      else if x = 1 then map_option ((#) y) (bshape xs ys)
      else None)"

definition broadcast_shapes :: "nat list \<Rightarrow> nat list \<Rightarrow> nat list option" where
  "broadcast_shapes a b = map_option rev (bshape (rev a) (rev b))"

text \<open>The index into an operand of shape \<open>sh\<close> that a result index \<open>idx\<close> reads.\<close>

definition bidx :: "nat list \<Rightarrow> nat list \<Rightarrow> nat list" where
  "bidx sh idx = map2 (\<lambda>d i. if d = 1 then 0 else i) sh (drop (length idx - length sh) idx)"

definition np_binop :: "('a \<Rightarrow> 'b \<Rightarrow> 'c) \<Rightarrow> 'a ndarray \<Rightarrow> 'b ndarray \<Rightarrow> error + 'c ndarray" where
  "np_binop f A B =
     (case broadcast_shapes (shape A) (shape B) of
        None \<Rightarrow> Inl ValueError
      | Some sh \<Rightarrow> Inr (tabulate sh (\<lambda>idx. f (elem A (bidx (shape A) idx)) (elem B (bidx (shape B) idx)))))"

text \<open>
  An in-place operation \<open>A op= B\<close> on an array: \<open>B\<close> must broadcast to the shape of
  \<open>A\<close>, which keeps its shape.
\<close>

definition np_inplace :: "('a \<Rightarrow> 'b \<Rightarrow> 'a) \<Rightarrow> 'a ndarray \<Rightarrow> 'b ndarray \<Rightarrow> error + 'a ndarray" where
  "np_inplace f A B =
     (if broadcast_shapes (shape A) (shape B) = Some (shape A)
      then Inr (tabulate (shape A) (\<lambda>idx. f (elem A idx) (elem B (bidx (shape B) idx))))
      else Inl ValueError)"

text \<open>\<open>A.reshape(sh)\<close>: the same elements in the same row-major order.\<close>

definition np_reshape :: "'a ndarray \<Rightarrow> nat list \<Rightarrow> error + 'a ndarray" where
  "np_reshape A sh =
     (if prod_list sh = prod_list (shape A) then Inr \<lparr>shape = sh, data = data A\<rparr>
      else Inl ValueError)"

text \<open>\<open>np.transpose(A)\<close> reverses the axes.\<close>

definition np_transpose :: "'a ndarray \<Rightarrow> 'a ndarray" where
  "np_transpose A = tabulate (rev (shape A)) (\<lambda>idx. elem A (rev idx))"

text \<open>
  \<open>np.dot\<close> of two 2-D arrays is the matrix product.  The program only passes 2-D
  arrays; other ranks are outside the model and are rejected.
\<close>

definition np_dot :: "real ndarray \<Rightarrow> real ndarray \<Rightarrow> error + real ndarray" where
  "np_dot A B =
     (case (shape A, shape B) of
        ([n, k], [k', m]) \<Rightarrow>
          if k = k'
          then Inr (tabulate [n, m] (\<lambda>idx. \<Sum>l\<leftarrow>[0..<k]. elem A [idx ! 0, l] * elem B [l, idx ! 1]))
          else Inl ValueError
      | _ \<Rightarrow> Inl ValueError)"

text \<open>Reductions along the first axis, \<open>keepdims=True\<close>.\<close>

definition np_max0 :: "real ndarray \<Rightarrow> error + real ndarray" where
  "np_max0 Z =
     (case shape Z of
        [] \<Rightarrow> Inl ValueError
      | d # ds \<Rightarrow>
          if d = 0 then Inl ValueError
          else Inr (tabulate (1 # ds)
                 (\<lambda>idx. fold max (map (\<lambda>i. elem Z (i # tl idx)) [1..<d]) (elem Z (0 # tl idx)))))"

definition np_sum0 :: "real ndarray \<Rightarrow> error + real ndarray" where
  "np_sum0 Z =
     (case shape Z of
        [] \<Rightarrow> Inl ValueError
      | d # ds \<Rightarrow> Inr (tabulate (1 # ds) (\<lambda>idx. \<Sum>i\<leftarrow>[0..<d]. elem Z (i # tl idx))))"

text \<open>\<open>np.sum(A, axis=1, keepdims=True)\<close>.\<close>

definition np_sum1 :: "real ndarray \<Rightarrow> error + real ndarray" where
  "np_sum1 Z =
     (case shape Z of
        d0 # d1 # ds \<Rightarrow>
          Inr (tabulate (d0 # 1 # ds) (\<lambda>idx. \<Sum>j\<leftarrow>[0..<d1]. elem Z (hd idx # j # tl (tl idx))))
      | _ \<Rightarrow> Inl ValueError)"

text \<open>
  \<open>np.argmax(A, axis=0)\<close>: for every position of the remaining axes the first index
  along axis 0 at which the maximum is attained.
\<close>

fun argmax_from :: "(nat \<Rightarrow> real) \<Rightarrow> nat \<Rightarrow> nat list \<Rightarrow> nat" where
  "argmax_from f best [] = best"
| "argmax_from f best (i # js) = argmax_from f (if f best < f i then i else best) js"

definition np_argmax0 :: "real ndarray \<Rightarrow> error + nat ndarray" where
  "np_argmax0 A =
     (case shape A of
        [] \<Rightarrow> Inl ValueError
      | d # ds \<Rightarrow>
          if d = 0 then Inl ValueError
          else Inr (tabulate ds (\<lambda>idx. argmax_from (\<lambda>i. elem A (i # idx)) 0 [1..<d])))"

text \<open>\<open>np.repeat(A, 2, axis=0)\<close> and \<open>np.repeat(A, 2, axis=1)\<close>.\<close>

definition np_repeat2_0 :: "'a ndarray \<Rightarrow> error + 'a ndarray" where
  "np_repeat2_0 A =
     (case shape A of
        d0 # ds \<Rightarrow> Inr (tabulate (2 * d0 # ds) (\<lambda>idx. elem A (hd idx div 2 # tl idx)))
      | _ \<Rightarrow> Inl ValueError)"

definition np_repeat2_1 :: "'a ndarray \<Rightarrow> error + 'a ndarray" where
  "np_repeat2_1 A =
     (case shape A of
        d0 # d1 # ds \<Rightarrow>
          Inr (tabulate (d0 # 2 * d1 # ds) (\<lambda>idx. elem A (hd idx # hd (tl idx) div 2 # tl (tl idx))))
      | _ \<Rightarrow> Inl ValueError)"

text \<open>\<open>A[1:-1, 1:-1]\<close>; an axis shorter than 2 leaves an empty slice.\<close>

definition slice_inner :: "'a ndarray \<Rightarrow> error + 'a ndarray" where
  "slice_inner A =
     (case shape A of
        d0 # d1 # ds \<Rightarrow>
          Inr (tabulate ((d0 - 2) # (d1 - 2) # ds)
                 (\<lambda>idx. elem A (Suc (hd idx) # Suc (hd (tl idx)) # tl (tl idx))))
      | _ \<Rightarrow> Inl IndexError)"

text \<open>\<open>A.max(axis=(1, 3))\<close> and \<open>np.sum(A, axis=(1, 3))\<close> of a 4-D array.\<close>

definition np_max13 :: "real ndarray \<Rightarrow> error + real ndarray" where
  "np_max13 A =
     (case shape A of
        [d0, d1, d2, d3] \<Rightarrow>
          if d1 = 0 \<or> d3 = 0 then Inl ValueError
          else Inr (tabulate [d0, d2]
                 (\<lambda>idx. fold max
                    (tl (concat (map (\<lambda>p. map (\<lambda>q. elem A [idx ! 0, p, idx ! 1, q]) [0..<d3]) [0..<d1])))
                    (elem A [idx ! 0, 0, idx ! 1, 0])))
      | _ \<Rightarrow> Inl ValueError)"

definition np_sum13 :: "real ndarray \<Rightarrow> error + real ndarray" where
  "np_sum13 A =
     (case shape A of
        [d0, d1, d2, d3] \<Rightarrow>
          Inr (tabulate [d0, d2]
                 (\<lambda>idx. \<Sum>p\<leftarrow>[0..<d1]. \<Sum>q\<leftarrow>[0..<d3]. elem A [idx ! 0, p, idx ! 1, q]))
      | _ \<Rightarrow> Inl ValueError)"

text \<open>\<open>np.sum(A, axis=2)\<close> of a 3-D array.\<close>

definition np_sum2 :: "real ndarray \<Rightarrow> error + real ndarray" where
  "np_sum2 A =
     (case shape A of
        [d0, d1, d2] \<Rightarrow> Inr (tabulate [d0, d1] (\<lambda>idx. \<Sum>s\<leftarrow>[0..<d2]. elem A [idx ! 0, idx ! 1, s]))
      | _ \<Rightarrow> Inl ValueError)"

text \<open>\<open>np.pad(A, 1, 'constant', constant_values=0)\<close>.\<close>

definition np_pad1 :: "real ndarray \<Rightarrow> real ndarray" where
  "np_pad1 A =
     tabulate (map (\<lambda>d. d + 2) (shape A))
       (\<lambda>idx. if list_all2 (\<lambda>i d. 1 \<le> i \<and> i \<le> d) idx (shape A)
               then elem A (map (\<lambda>i. i - 1) idx) else 0)"

text \<open>
  \<open>scipy.signal.convolve2d(in1, in2, mode='valid')\<close>: both inputs are 2-D and one of
  them is at least as large as the other along both axes (the larger one is taken as
  \<open>in1\<close>); the kernel is flipped, as convolution (not correlation) requires.
\<close>

definition conv_valid :: "real ndarray \<Rightarrow> real ndarray \<Rightarrow> real ndarray" where
  "conv_valid A K =
     (let h = shape A ! 0; w = shape A ! 1; kh = shape K ! 0; kw = shape K ! 1
      in tabulate [h - kh + 1, w - kw + 1]
           (\<lambda>idx. \<Sum>a\<leftarrow>[0..<kh]. \<Sum>b\<leftarrow>[0..<kw].
                     elem A [idx ! 0 + a, idx ! 1 + b] * elem K [kh - 1 - a, kw - 1 - b]))"

definition convolve2d :: "real ndarray \<Rightarrow> real ndarray \<Rightarrow> error + real ndarray" where
  "convolve2d in1 in2 =
     (case (shape in1, shape in2) of
        ([h1, w1], [h2, w2]) \<Rightarrow>
          if h2 \<le> h1 \<and> w2 \<le> w1 then Inr (conv_valid in1 in2)
          else if h1 \<le> h2 \<and> w1 \<le> w2 then Inr (conv_valid in2 in1)
          else Inl ValueError
      | _ \<Rightarrow> Inl ValueError)"


text \<open>Assigning and reading single elements and slices.\<close>

definition asize :: "'a ndarray \<Rightarrow> nat" where
  "asize A = prod_list (shape A)"

definition set_elem :: "'a ndarray \<Rightarrow> nat list \<Rightarrow> 'a \<Rightarrow> 'a ndarray" where
  "set_elem A idx v = A\<lparr>data := (data A)[ravel (shape A) idx := v]\<rparr>"

text \<open>
  \<open>A[M] = v\<close> for a boolean array \<open>M\<close>, whose shape has to agree with the leading axes
  of \<open>A\<close>.
\<close>

definition set_where :: "'a ndarray \<Rightarrow> bool ndarray \<Rightarrow> 'a \<Rightarrow> error + 'a ndarray" where
  "set_where A M v =
     (if take (length (shape M)) (shape A) = shape M
      then Inr (tabulate (shape A)
                  (\<lambda>idx. if elem M (take (length (shape M)) idx) then v else elem A idx))
      else Inl IndexError)"

text \<open>
  \<open>Y[0][i]\<close> for the 2-D label array \<open>Y\<close>.  (On arrays of rank 0 or 1 the expression
  raises \<open>IndexError\<close> as well; higher ranks are outside the model.)
\<close>

definition row0_at :: "'a ndarray \<Rightarrow> nat \<Rightarrow> error + 'a" where
  "row0_at Y i =
     (case shape Y of
        [r, c] \<Rightarrow> if 0 < r \<and> i < c then Inr (elem Y [0, i]) else Inl IndexError
      | _ \<Rightarrow> Inl IndexError)"

text \<open>
  The position that \<open>A[k][i]\<close> denotes in a 2-D array: \<open>k\<close> is a Python integer, so a
  negative \<open>k\<close> counts rows from the end; \<open>i\<close> comes from \<open>range\<close>.
\<close>

definition py_index2 :: "'a ndarray \<Rightarrow> int \<Rightarrow> nat \<Rightarrow> error + nat list" where
  "py_index2 A k i =
     (case shape A of
        [n, m] \<Rightarrow>
          if - int n \<le> k \<and> k < int n \<and> i < m
          then Inr [nat (if k < 0 then k + int n else k), i]
          else Inl IndexError
      | _ \<Rightarrow> Inl IndexError)"

text \<open>\<open>X[:, :, j]\<close>.\<close>

definition slice_sample :: "'a ndarray \<Rightarrow> nat \<Rightarrow> error + 'a ndarray" where
  "slice_sample X j =
     (case shape X of
        h # w # m # ds \<Rightarrow>
          if j < m
          then Inr (tabulate (h # w # ds) (\<lambda>idx. elem X (idx ! 0 # idx ! 1 # j # drop 2 idx)))
          else Inl IndexError
      | _ \<Rightarrow> Inl IndexError)"

text \<open>\<open>M[:, :, i, j]\<close> and \<open>M[:, :, i, j] = E\<close> for a 4-D array \<open>M\<close>.\<close>

definition plane :: "'a ndarray \<Rightarrow> nat \<Rightarrow> nat \<Rightarrow> error + 'a ndarray" where
  "plane M i j =
     (case shape M of
        [a, b, c, d] \<Rightarrow>
          if i < c \<and> j < d then Inr (tabulate [a, b] (\<lambda>idx. elem M [idx ! 0, idx ! 1, i, j]))
          else Inl IndexError
      | _ \<Rightarrow> Inl IndexError)"

definition set_plane :: "'a ndarray \<Rightarrow> nat \<Rightarrow> nat \<Rightarrow> 'a ndarray \<Rightarrow> error + 'a ndarray" where
  "set_plane M i j E =
     (case shape M of
        [a, b, c, d] \<Rightarrow>
          if i < c \<and> j < d
          then if broadcast_shapes [a, b] (shape E) = Some [a, b]
               then Inr (tabulate [a, b, c, d]
                      (\<lambda>idx. if idx ! 2 = i \<and> idx ! 3 = j
                              then elem E (bidx (shape E) [idx ! 0, idx ! 1]) else elem M idx))
               else Inl ValueError
          else Inl IndexError
      | _ \<Rightarrow> Inl IndexError)"

text \<open>
  \<open>A[lo:hi, j]\<close>, \<open>A[lo:hi, j] = v\<close> (with a 1-D \<open>v\<close>), \<open>A[lo:hi]\<close> and \<open>A[j]\<close> for a 2-D
  array \<open>A\<close>.  A slice is cut off at the end of the axis.
\<close>

definition rows_col :: "'a ndarray \<Rightarrow> nat \<Rightarrow> nat \<Rightarrow> nat \<Rightarrow> error + 'a ndarray" where
  "rows_col A lo hi j =
     (case shape A of
        [n, m] \<Rightarrow>
          if j < m then Inr (tabulate [min hi n - min lo n] (\<lambda>idx. elem A [lo + idx ! 0, j]))
          else Inl IndexError
      | _ \<Rightarrow> Inl IndexError)"

definition set_rows_col :: "'a ndarray \<Rightarrow> nat \<Rightarrow> nat \<Rightarrow> nat \<Rightarrow> 'a ndarray \<Rightarrow> error + 'a ndarray" where
  "set_rows_col A lo hi j v =
     (case shape A of
        [n, m] \<Rightarrow>
          if j < m
          then (case shape v of
                  [k] \<Rightarrow>
                    if k = min hi n - min lo n \<or> k = 1
                    then Inr (tabulate [n, m]
                           (\<lambda>idx. if lo \<le> idx ! 0 \<and> idx ! 0 < hi \<and> idx ! 1 = j
                                   then elem v [if k = 1 then 0 else idx ! 0 - lo]
                                   else elem A idx))
                    else Inl ValueError
                | _ \<Rightarrow> Inl ValueError)
          else Inl IndexError
      | _ \<Rightarrow> Inl IndexError)"

definition rows :: "'a ndarray \<Rightarrow> nat \<Rightarrow> nat \<Rightarrow> error + 'a ndarray" where
  "rows A lo hi =
     (case shape A of
        n # ds \<Rightarrow> Inr (tabulate ((min hi n - min lo n) # ds) (\<lambda>idx. elem A ((lo + hd idx) # tl idx)))
      | _ \<Rightarrow> Inl IndexError)"

definition row :: "'a ndarray \<Rightarrow> nat \<Rightarrow> error + 'a ndarray" where
  "row A j =
     (case shape A of
        n # ds \<Rightarrow> if j < n then Inr (tabulate ds (\<lambda>idx. elem A (j # idx))) else Inl IndexError
      | _ \<Rightarrow> Inl IndexError)"

text \<open>\<open>A[x:x+3, y:y+3, :]\<close> for a 3-D array \<open>A\<close>.\<close>

definition patch :: "'a ndarray \<Rightarrow> nat \<Rightarrow> nat \<Rightarrow> error + 'a ndarray" where
  "patch A x y =
     (case shape A of
        [h, w, m] \<Rightarrow>
          Inr (tabulate [min (x + 3) h - min x h, min (y + 3) w - min y w, m]
                 (\<lambda>idx. elem A [x + idx ! 0, y + idx ! 1, idx ! 2]))
      | _ \<Rightarrow> Inl IndexError)"

text \<open>
  \<open>-np.mean(np.log(IA))\<close>: the mean of an empty array is NaN (numpy only warns), which
  the value \<open>None\<close> stands for.
\<close>

definition neg_mean_log :: "real list \<Rightarrow> real option" where
  "neg_mean_log ps =
     (if ps = [] then None else Some (- (sum_list (map ln ps) / real (length ps))))"

section \<open>The program\<close>

type_synonym dict = "(string \<times> real ndarray) list"

subsection \<open>Activation library\<close>

definition relu :: "real ndarray \<Rightarrow> real ndarray \<times> dict" where
  "relu Z = (let A = amap (max 0) Z; cache = [(''Z'', Z)] in (A, cache))"

definition relu_der :: "real ndarray \<Rightarrow> dict \<Rightarrow> error + real ndarray" where
  "relu_der dA cache =
     (let dZ = dA in
      bindE (lookup cache ''Z'') (\<lambda>Z.
      set_where dZ (amap (\<lambda>z. z < 0) Z) 0))"

definition linear :: "real ndarray \<Rightarrow> real ndarray \<times> dict" where
  "linear Z = (let A = Z; cache = [] in (A, cache))"

definition linear_der :: "real ndarray \<Rightarrow> dict \<Rightarrow> real ndarray" where
  "linear_der dA cache = (let dZ = dA in dZ)"

subsection \<open>Softmax and cross-entropy\<close>

definition softmax_cross_entropy_loss ::
  "real ndarray \<Rightarrow> int ndarray \<Rightarrow> error + (real ndarray \<times> dict \<times> real option)" where
  "softmax_cross_entropy_loss Z Y =
     bindE (np_max0 Z) (\<lambda>mZ.
     bindE (np_binop (-) Z mZ) (\<lambda>ZmZ.
     let expZ = amap exp ZmZ in
     bindE (np_sum0 expZ) (\<lambda>sumexp.
     bindE (np_binop (/) expZ sumexp) (\<lambda>A.
     let cache = [(''A'', A)] in
     bindE (mapE (\<lambda>i. bindE (row0_at Y i) (\<lambda>k. bindE (py_index2 A k i) (\<lambda>pos. Inr (elem A pos))))
              [0..<asize Y]) (\<lambda>IA.
     let IA = map (\<lambda>p. (p - 0.5) * 0.9999999999 + 0.5) IA;
         loss = neg_mean_log IA
     in Inr (A, cache, loss))))))"

definition softmax_cross_entropy_loss_der :: "int ndarray \<Rightarrow> dict \<Rightarrow> error + real ndarray" where
  "softmax_cross_entropy_loss_der Y cache =
     bindE (lookup cache ''A'') (\<lambda>A.
     foldE (\<lambda>i dZ. bindE (row0_at Y i) (\<lambda>k. bindE (py_index2 dZ k i) (\<lambda>pos.
                      Inr (set_elem dZ pos (elem dZ pos - 1)))))
       [0..<asize Y] A)"

subsection \<open>Dense layers\<close>

record layer_cache =
  lin_cache :: dict
  act_cache :: dict

definition linear_forward ::
  "real ndarray \<Rightarrow> real ndarray \<Rightarrow> real ndarray \<Rightarrow> error + (real ndarray \<times> dict)" where
  "linear_forward A W b =
     bindE (np_dot W A) (\<lambda>WA.
     bindE (np_binop (+) WA b) (\<lambda>Z.
     let cache = [(''A'', A)] in Inr (Z, cache)))"

definition layer_forward ::
  "real ndarray \<Rightarrow> real ndarray \<Rightarrow> real ndarray \<Rightarrow> string \<Rightarrow> error + (real ndarray \<times> layer_cache)" where
  "layer_forward A_prev W b activation =
     bindE (linear_forward A_prev W b) (\<lambda>(Z, lin_cache).
     bindE (if activation = ''relu'' then Inr (relu Z)
            else if activation = ''linear'' then Inr (linear Z)
            else Inl UnboundLocalError) (\<lambda>(A, act_cache).
     Inr (A, \<lparr>lin_cache = lin_cache, act_cache = act_cache\<rparr>)))"

definition multi_layer_forward ::
  "real ndarray \<Rightarrow> dict \<Rightarrow> error + (real ndarray \<times> layer_cache list)" where
  "multi_layer_forward X parameters =
     (let L = length parameters div 2 in
      bindE (foldE (\<lambda>l (A, caches).
                      bindE (lookup parameters (''W'' @ str_nat l)) (\<lambda>W.
                      bindE (lookup parameters (''b'' @ str_nat l)) (\<lambda>b.
                      bindE (layer_forward A W b ''relu'') (\<lambda>(A, cache).
                      Inr (A, caches @ [cache])))))
               [1..<L] (X, [])) (\<lambda>(A, caches).
      bindE (lookup parameters (''W'' @ str_nat L)) (\<lambda>W.
      bindE (lookup parameters (''b'' @ str_nat L)) (\<lambda>b.
      bindE (layer_forward A W b ''linear'') (\<lambda>(AL, cache).
      Inr (AL, caches @ [cache]))))))"

definition linear_backward ::
  "real ndarray \<Rightarrow> dict \<Rightarrow> real ndarray \<Rightarrow> real ndarray
     \<Rightarrow> error + (real ndarray \<times> real ndarray \<times> real ndarray)" where
  "linear_backward dZ cache W b =
     bindE (lookup cache ''A'') (\<lambda>A_prev.
     case shape dZ of
       _ # m # _ \<Rightarrow>
         bindE (np_dot (np_transpose W) dZ) (\<lambda>dA_prev.
         bindE (np_dot dZ (np_transpose A_prev)) (\<lambda>dZA.
         let dW = amap (\<lambda>v. v / real m) dZA in
         bindE (np_sum1 dZ) (\<lambda>sdZ.
         let db = amap (\<lambda>v. v / real m) sdZ in
         Inr (dA_prev, dW, db))))
     | _ \<Rightarrow> Inl IndexError)"

definition layer_backward ::
  "real ndarray \<Rightarrow> layer_cache \<Rightarrow> real ndarray \<Rightarrow> real ndarray \<Rightarrow> string
     \<Rightarrow> error + (real ndarray \<times> real ndarray \<times> real ndarray)" where
  "layer_backward dA cache W b activation =
     (let lin_cache = lin_cache cache; act_cache = act_cache cache in
      bindE (if activation = ''relu'' then relu_der dA act_cache
             else if activation = ''linear'' then Inr (linear_der dA act_cache)
             else Inl UnboundLocalError) (\<lambda>dZ.
      linear_backward dZ lin_cache W b))"

definition multi_layer_backward ::
  "real ndarray \<Rightarrow> layer_cache list \<Rightarrow> dict \<Rightarrow> error + dict" where
  "multi_layer_backward dAL caches parameters =
     (let L = length caches in
      bindE (foldE (\<lambda>l (dA, gradients, activation).
                      if l - 1 < length caches then
                        bindE (lookup parameters (''W'' @ str_nat l)) (\<lambda>W.
                        bindE (lookup parameters (''b'' @ str_nat l)) (\<lambda>b.
                        bindE (layer_backward dA (caches ! (l - 1)) W b activation) (\<lambda>(dA, dW, db).
                        let gradients = AList.update (''dW'' @ str_nat l) dW gradients;
                            gradients = AList.update (''db'' @ str_nat l) db gradients
                        in Inr (dA, gradients, ''relu''))))
                      else Inl IndexError)
               (rev [1..<L + 1]) (dAL, [], ''linear'')) (\<lambda>(dA, gradients, activation).
      Inr (AList.update ''dA'' dA gradients)))"

subsection \<open>Convolution and pooling\<close>

text \<open>
  The dictionary \<open>convParameters\<close> binds \<open>convW1\<close>, \dots, \<open>convW5\<close> to 3\<times>3 arrays and
  \<open>convb1\<close>, \dots, \<open>convb5\<close> to floats; the dictionary of convolution gradients has the
  same layout.  The model keeps the two kinds of value in two association lists.  The
  cache of \<open>conv_forward\<close> holds in addition the input under \<open>A\<close> and the integer array
  \<open>masks\<close>.
\<close>

record conv_dict =
  arrs :: dict
  nums :: "(string \<times> real) list"

record conv_cache = conv_dict +
  cache_masks :: "int ndarray"

text \<open>
  The body of the inner loop of \<open>conv_forward\<close>, for filter \<open>i\<close> and sample \<open>j\<close>; the state
  is the pair of the arrays \<open>masks\<close> and \<open>Z\<close> that the loop fills.
\<close>

definition conv_forward_step ::
  "real ndarray \<Rightarrow> real ndarray \<Rightarrow> real \<Rightarrow> nat \<Rightarrow> nat \<Rightarrow> int ndarray \<times> real ndarray
     \<Rightarrow> error + (int ndarray \<times> real ndarray)" where
  "conv_forward_step X W b i j st =
     (case st of (masks, Z) \<Rightarrow>
      let dim = 25 * 25 in
      bindE (slice_sample X j) (\<lambda>Xj.
      bindE (convolve2d Xj W) (\<lambda>z.
      let z = amap (\<lambda>v. v + b) z in
      bindE (np_repeat2_0 z) (\<lambda>z.
      bindE (np_repeat2_1 z) (\<lambda>z.
      bindE (slice_inner z) (\<lambda>z.
      let z_prev = z in
      bindE (np_reshape z [25, 2, 25, 2]) (\<lambda>z.
      bindE (np_max13 z) (\<lambda>z.
      bindE (np_reshape z [dim]) (\<lambda>zflat.
      bindE (set_rows_col Z (dim * i) (dim * (i + 1)) j zflat) (\<lambda>Z.
      bindE (np_reshape z [25, 25]) (\<lambda>_.
      bindE (np_repeat2_0 z) (\<lambda>z.
      bindE (np_repeat2_1 z) (\<lambda>z.
      bindE (np_binop (=) z_prev z) (\<lambda>eq.
      bindE (set_plane masks i j (amap (\<lambda>t. if t then 1 else 0) eq)) (\<lambda>masks.
      Inr (masks, Z))))))))))))))))"

text \<open>
  \<open>np.empty\<close> leaves the contents of a new array unspecified; the model fills it with
  zeros.  Every entry of \<open>masks\<close> and \<open>Z\<close> is assigned before \<open>conv_forward\<close> returns.
\<close>

definition conv_forward :: "real ndarray \<Rightarrow> conv_dict \<Rightarrow> error + (real ndarray \<times> conv_cache)" where
  "conv_forward X parameters =
     (case shape X of
        _ # _ # m # _ \<Rightarrow>
          let cache_arrs = [(''A'', X)];
              dim = 25 * 25;
              masks = full [50, 50, 5, m] 0;
              Z = full [dim * 5, m] 0
          in
          bindE (foldE (\<lambda>i (cache_arrs, cache_nums, masks, Z).
                   bindE (lookup (arrs parameters) (''convW'' @ str_nat (i + 1))) (\<lambda>W.
                   bindE (lookup (nums parameters) (''convb'' @ str_nat (i + 1))) (\<lambda>b.
                   let cache_arrs = AList.update (''convW'' @ str_nat (i + 1)) W cache_arrs;
                       cache_nums = AList.update (''convb'' @ str_nat (i + 1)) b cache_nums
                   in
                   bindE (foldE (conv_forward_step X W b i) [0..<m] (masks, Z)) (\<lambda>(masks, Z).
                   Inr (cache_arrs, cache_nums, masks, Z)))))
                 [0..<5] (cache_arrs, [], masks, Z)) (\<lambda>(cache_arrs, cache_nums, masks, Z).
          Inr (Z, \<lparr>arrs = cache_arrs, nums = cache_nums, cache_masks = masks\<rparr>))
      | _ \<Rightarrow> Inl IndexError)"

text \<open>
  The first loop of \<open>conv_backward\<close> (through the pooling), for sample \<open>i\<close> and filter
  \<open>j\<close>; the state is the array \<open>dA_prev\<close>.  \<open>dA\<close> is 2-D; other ranks are outside the
  model.
\<close>

definition pool_backward_step ::
  "real ndarray \<Rightarrow> int ndarray \<Rightarrow> nat \<Rightarrow> nat \<Rightarrow> real ndarray \<Rightarrow> error + real ndarray" where
  "pool_backward_step dA masks i j dA_prev =
     (let dim0 = 25 * 25; dim = 26 * 26 in
      bindE (plane masks j i) (\<lambda>mask.
      bindE (rows_col dA (j * dim0) ((j + 1) * dim0) i) (\<lambda>d.
      bindE (np_reshape d [25, 25]) (\<lambda>d.
      bindE (np_repeat2_0 d) (\<lambda>d.
      bindE (np_repeat2_1 d) (\<lambda>d.
      bindE (np_binop (\<lambda>v t. v * real_of_int t) d mask) (\<lambda>d.
      let d = np_pad1 d in
      bindE (np_reshape d [26, 2, 26, 2]) (\<lambda>d.
      bindE (np_sum13 d) (\<lambda>s.
      bindE (np_reshape s [dim]) (\<lambda>sflat.
      set_rows_col dA_prev (j * dim) ((j + 1) * dim) i sflat))))))))))"

text \<open>
  The second loop (through the convolution), for filter \<open>i\<close>; the state is the pair of
  gradient dictionaries.  When the batch is empty the divisions by \<open>m * dim\<close> yield NaN in
  numpy, which the real-valued model does not represent.
\<close>

definition conv_backward_filter ::
  "real ndarray \<Rightarrow> real ndarray \<Rightarrow> nat \<Rightarrow> nat \<Rightarrow> conv_dict \<Rightarrow> error + conv_dict" where
  "conv_backward_filter dA A m i gradients =
     (let dim = 26 * 26 in
      bindE (rows dA (i * dim) ((i + 1) * dim)) (\<lambda>dZ.
      let gradients = gradients\<lparr>nums := AList.update (''dconvb'' @ str_nat (i + 1))
                                            (sum_list (data dZ) / real (m * dim)) (nums gradients)\<rparr>;
          dW = full [3, 3] 0
      in
      bindE (foldE (\<lambda>j dW.
               let x = j div 26; y = j mod 26 in
               bindE (patch A x y) (\<lambda>Aslice.
               bindE (row dZ j) (\<lambda>dZj.
               bindE (np_binop (*) Aslice dZj) (\<lambda>AdZ.
               bindE (np_sum2 AdZ) (\<lambda>s.
               np_inplace (+) dW s)))))
             [0..<dim] dW) (\<lambda>dW.
      Inr (gradients\<lparr>arrs := AList.update (''dconvW'' @ str_nat (i + 1))
                                 (amap (\<lambda>v. v / real (m * dim)) dW) (arrs gradients)\<rparr>))))"

definition conv_backward :: "real ndarray \<Rightarrow> conv_cache \<Rightarrow> conv_dict \<Rightarrow> error + conv_dict" where
  "conv_backward dA cache parameters =
     (case shape dA of
        [_, m] \<Rightarrow>
          let masks = cache_masks cache;
              dA_prev = full [26 * 26 * 5, m] 0
          in
          bindE (foldE (\<lambda>i. foldE (pool_backward_step dA masks i) [0..<5]) [0..<m] dA_prev) (\<lambda>dA_prev.
          let dA = dA_prev in
          bindE (lookup (arrs cache) ''A'') (\<lambda>A.
          foldE (conv_backward_filter dA A m) [0..<5] \<lparr>arrs = [], nums = []\<rparr>))
      | [] \<Rightarrow> Inl IndexError
      | [_] \<Rightarrow> Inl IndexError
      | _ \<Rightarrow> Inl ValueError)"

subsection \<open>Classification\<close>

text \<open>The default value \<open>np.array([])\<close> of the label argument.\<close>

definition no_labels :: "int ndarray" where
  "no_labels = \<lparr>shape = [0], data = []\<rparr>"

definition classify :: "real ndarray \<Rightarrow> dict \<Rightarrow> conv_dict \<Rightarrow> error + nat ndarray" where
  "classify X parameters convParameters =
     bindE (conv_forward X convParameters) (\<lambda>(A0, convCache).
     bindE (multi_layer_forward A0 parameters) (\<lambda>(AL, caches).
     bindE (softmax_cross_entropy_loss AL no_labels) (\<lambda>(A, cache, cost).
     let Ypred = np_argmax0 A in Ypred)))"

subsection \<open>Parameter update\<close>






subsection \<open>One training iteration\<close>

text \<open>
  The forward and backward passes of one iteration of the loop of
  \<open>multi_layer_network\<close>: the cost and the two gradient dictionaries.
\<close>

definition forward_backward ::
  "real ndarray \<Rightarrow> int ndarray \<Rightarrow> dict \<Rightarrow> conv_dict \<Rightarrow> error + (real option \<times> dict \<times> conv_dict)" where
  "forward_backward X Y parameters convParameters =
     bindE (conv_forward X convParameters) (\<lambda>(A0, convCache).
     bindE (multi_layer_forward A0 parameters) (\<lambda>(AL, caches).
     bindE (softmax_cross_entropy_loss AL Y) (\<lambda>(A, cache, cost).
     bindE (softmax_cross_entropy_loss_der Y cache) (\<lambda>dZ.
     bindE (multi_layer_backward dZ caches parameters) (\<lambda>gradients.
     bindE (lookup gradients ''dA'') (\<lambda>dA.
     bindE (conv_backward dA convCache convParameters) (\<lambda>convGradients.
     Inr (cost, gradients, convGradients))))))))"

section \<open>Specification-level notions\<close>

text \<open>
  The softmax of the columns of a 2-D array as the specification words it, without the
  subtraction of the column maximum that the program performs for numerical stability.
\<close>

definition spec_softmax :: "real ndarray \<Rightarrow> real ndarray" where
  "spec_softmax Z =
     tabulate (shape Z) (\<lambda>idx. exp (elem Z idx) / (\<Sum>k<hd (shape Z). exp (elem Z [k, idx ! 1])))"

text \<open>
  A label \<open>k\<close> that Python accepts as a row index of an array with \<open>n\<close> rows, and the
  row it selects.
\<close>

definition label_ok :: "nat \<Rightarrow> int \<Rightarrow> bool" where
  "label_ok n k \<longleftrightarrow> - int n \<le> k \<and> k < int n"

definition label_row :: "nat \<Rightarrow> int \<Rightarrow> nat" where
  "label_row n k = nat (if k < 0 then k + int n else k)"


text \<open>Arrays of rank 1, 2 and 4 given by their entries.\<close>

definition tab1 :: "nat \<Rightarrow> (nat \<Rightarrow> 'a) \<Rightarrow> 'a ndarray" where
  "tab1 n f = tabulate [n] (\<lambda>idx. f (idx ! 0))"

definition tab2 :: "nat \<Rightarrow> nat \<Rightarrow> (nat \<Rightarrow> nat \<Rightarrow> 'a) \<Rightarrow> 'a ndarray" where
  "tab2 n m f = tabulate [n, m] (\<lambda>idx. f (idx ! 0) (idx ! 1))"

definition tab4 :: "nat \<Rightarrow> nat \<Rightarrow> nat \<Rightarrow> nat \<Rightarrow> (nat \<Rightarrow> nat \<Rightarrow> nat \<Rightarrow> nat \<Rightarrow> 'a) \<Rightarrow> 'a ndarray" where
  "tab4 n m p q f = tabulate [n, m, p, q] (\<lambda>idx. f (idx ! 0) (idx ! 1) (idx ! 2) (idx ! 3))"

text \<open>
  The valid 2-D convolution of sample \<open>j\<close> of the batch \<open>X\<close> with the 3\<times>3 filter \<open>W\<close>
  plus the bias \<open>b\<close>, at position \<open>(x, y)\<close> of the 26\<times>26 map; and the maximum over
  the 2\<times>2 window at \<open>(r, c)\<close> of that map, the entry \<open>(r, c)\<close> of the 25\<times>25 pooled map.
\<close>

definition spec_conv :: "real ndarray \<Rightarrow> real ndarray \<Rightarrow> real \<Rightarrow> nat \<Rightarrow> nat \<Rightarrow> nat \<Rightarrow> real" where
  "spec_conv X W b j x y = (\<Sum>a<3. \<Sum>c<3. elem X [x + a, y + c, j] * elem W [2 - a, 2 - c]) + b"

definition spec_pool :: "real ndarray \<Rightarrow> real ndarray \<Rightarrow> real \<Rightarrow> nat \<Rightarrow> nat \<Rightarrow> nat \<Rightarrow> real" where
  "spec_pool X W b j r c = Max ((\<lambda>(a, d). spec_conv X W b j (r + a) (c + d)) ` ({..<2} \<times> {..<2}))"

section \<open>Properties\<close>

lemma ravel_less: "inb sh idx \<Longrightarrow> ravel sh idx < prod_list sh"
proof (induction sh idx rule: ravel.induct)
  case (1 d ds i "is")
  then have i: "i < d" and r: "ravel ds is < prod_list ds"
    by (simp_all add: inb_def)
  have "i * prod_list ds + ravel ds is < i * prod_list ds + prod_list ds"
    using r by simp
  also have "\<dots> = Suc i * prod_list ds" by simp
  also have "\<dots> \<le> d * prod_list ds"
    using i by (intro mult_le_mono1) simp
  finally show ?case by simp
qed (auto simp: inb_def)

lemma unravel_ravel: "inb sh idx \<Longrightarrow> unravel sh (ravel sh idx) = idx"
proof (induction sh idx rule: ravel.induct)
  case (1 d ds i "is")
  then have b: "inb ds is" by (simp add: inb_def)
  from ravel_less [OF b] show ?case using 1 b by simp
qed (auto simp: inb_def)

lemma inb_unravel: "k < prod_list sh \<Longrightarrow> inb sh (unravel sh k)"
proof (induction sh arbitrary: k)
  case Nil
  then show ?case by (simp add: inb_def)
next
  case (Cons d ds)
  then have pos: "0 < prod_list ds" by (cases "prod_list ds = 0") auto
  have "k div prod_list ds < d"
    using Cons.prems pos by (simp add: less_mult_imp_div_less mult.commute)
  moreover have "inb ds (unravel ds (k mod prod_list ds))"
    using Cons.IH pos by simp
  ultimately show ?case by (simp add: inb_def)
qed

lemma ravel_unravel: "k < prod_list sh \<Longrightarrow> ravel sh (unravel sh k) = k"
proof (induction sh arbitrary: k)
  case Nil
  then show ?case by simp
next
  case (Cons d ds)
  then have pos: "0 < prod_list ds" by (cases "prod_list ds = 0") auto
  then have "ravel ds (unravel ds (k mod prod_list ds)) = k mod prod_list ds"
    using Cons.IH by simp
  then show ?case by simp
qed

lemma elem_tabulate: "inb sh idx \<Longrightarrow> elem (tabulate sh f) idx = f idx"
  by (simp add: elem_def tabulate_def ravel_less unravel_ravel)

lemma shape_tabulate: "shape (tabulate sh f) = sh"
  by (simp add: tabulate_def)

lemma wf_tabulate: "wfa (tabulate sh f)"
  by (simp add: wfa_def tabulate_def)

lemma elem_full: "inb sh idx \<Longrightarrow> elem (full sh v) idx = v"
  by (simp add: elem_def full_def ravel_less)

lemma shape_full: "shape (full sh v) = sh"
  by (simp add: full_def)

lemma wf_full: "wfa (full sh v)"
  by (simp add: wfa_def full_def)

lemma elem_amap: "wfa A \<Longrightarrow> inb (shape A) idx \<Longrightarrow> elem (amap f A) idx = f (elem A idx)"
  using ravel_less [of "shape A" idx] by (simp add: elem_def amap_def wfa_def)

lemma shape_amap: "shape (amap f A) = shape A"
  by (simp add: amap_def)

lemma wf_amap: "wfa A \<Longrightarrow> wfa (amap f A)"
  by (simp add: wfa_def amap_def)

lemma ndarray_eqI:
  fixes A B :: "'a ndarray"
  assumes "wfa A" "wfa B" "shape A = shape B"
    and "\<And>idx. inb (shape A) idx \<Longrightarrow> elem A idx = elem B idx"
  shows "A = B"
proof -
  have len: "length (data A) = length (data B)"
    using assms(1-3) by (simp add: wfa_def)
  have "data A ! k = data B ! k" if "k < length (data A)" for k
  proof -
    from that have k: "k < prod_list (shape A)" using assms(1) by (simp add: wfa_def)
    from assms(4) [OF inb_unravel [OF k]] show ?thesis
      using assms(3) k by (simp add: elem_def ravel_unravel)
  qed
  with len have "data A = data B" by (simp add: list_eq_iff_nth_eq)
  with assms(3) show ?thesis by simp
qed


lemma bindE_Inr [simp]: "bindE (Inr x) f = f x"
  by (simp add: bindE_def)

lemma bindE_Inl [simp]: "bindE (Inl e) f = Inl e"
  by (simp add: bindE_def)

lemma inb_length: "inb sh idx \<Longrightarrow> length idx = length sh"
  by (simp add: inb_def list_all2_lengthD)

lemma inb2 [simp]: "inb [n, m] [i, j] \<longleftrightarrow> i < n \<and> j < m"
  by (simp add: inb_def)

lemma sum_list_upt: "(\<Sum>l\<leftarrow>[0..<k]. f l) = (\<Sum>l<k. f l)"
  by (simp add: interv_sum_list_conv_sum_set_nat atLeast0LessThan)

lemma shape_transpose: "shape (np_transpose A) = rev (shape A)"
  by (simp add: np_transpose_def shape_tabulate)

lemma elem_transpose2:
  "shape A = [n, m] \<Longrightarrow> i < n \<Longrightarrow> j < m \<Longrightarrow> elem (np_transpose A) [j, i] = elem A [i, j]"
  by (simp add: np_transpose_def elem_tabulate)

lemma np_dot_2d:
  "shape A = [n, k] \<Longrightarrow> shape B = [k, m] \<Longrightarrow>
   np_dot A B = Inr (tabulate [n, m] (\<lambda>idx. \<Sum>l<k. elem A [idx ! 0, l] * elem B [l, idx ! 1]))"
  by (simp add: np_dot_def sum_list_upt)

lemma elem_lit: "elem \<lparr>shape = sh, data = xs\<rparr> idx = xs ! ravel sh idx"
  by (simp add: elem_def)

lemma sum_lessThan_2: "(\<Sum>j<2. f j) = f 0 + f (1::nat)" for f :: "nat \<Rightarrow> real"
  by (simp add: lessThan_Suc numeral_2_eq_2)

subsection \<open>Activation library\<close>

text \<open>
  C4.  For arrays \<open>Z\<close> and \<open>dA\<close> of one shape, \<open>relu_der\<close> applied to \<open>dA\<close> and the cache
  of \<open>relu Z\<close> returns an array of that shape which is 0 at the positions where \<open>Z < 0\<close>
  and agrees with \<open>dA\<close> at every other position, those with \<open>Z = 0\<close> included.
\<close>

theorem relu_der_relu:
  assumes "wfa Z" and "wfa dA" and "shape dA = shape Z"
  shows "\<exists>dZ. relu_der dA (snd (relu Z)) = Inr dZ \<and> shape dZ = shape Z \<and> wfa dZ \<and>
           (\<forall>idx. inb (shape Z) idx \<longrightarrow>
              elem dZ idx = (if elem Z idx < 0 then 0 else elem dA idx))"
  using assms
  by (auto simp: relu_def relu_der_def lookup_def set_where_def shape_amap shape_tabulate
      wf_tabulate elem_tabulate elem_amap inb_length)

theorem relu_der_relu_witness:
  "wfa \<lparr>shape = [2, 2], data = [- 1, 0, 2, - 3 :: real]\<rparr> \<and>
   wfa \<lparr>shape = [2, 2], data = [5, 6, 7, 8 :: real]\<rparr> \<and>
   (\<exists>dZ. relu_der \<lparr>shape = [2, 2], data = [5, 6, 7, 8]\<rparr>
            (snd (relu \<lparr>shape = [2, 2], data = [- 1, 0, 2, - 3]\<rparr>)) = Inr dZ \<and>
         elem dZ [0, 0] = 0 \<and> elem dZ [0, 1] = 6 \<and> elem dZ [1, 0] = 7 \<and> elem dZ [1, 1] = 0)"
proof -
  let ?Z = "\<lparr>shape = [2, 2], data = [- 1, 0, 2, - 3 :: real]\<rparr>"
  let ?dA = "\<lparr>shape = [2, 2], data = [5, 6, 7, 8 :: real]\<rparr>"
  have w: "wfa ?Z" "wfa ?dA" "shape ?dA = shape ?Z" by (simp_all add: wfa_def)
  from relu_der_relu [OF w] obtain dZ where
    r: "relu_der ?dA (snd (relu ?Z)) = Inr dZ" and
    e: "\<And>idx. inb (shape ?Z) idx \<Longrightarrow> elem dZ idx = (if elem ?Z idx < 0 then 0 else elem ?dA idx)"
    by blast
  have "elem dZ [0, 0] = 0" "elem dZ [0, 1] = 6" "elem dZ [1, 0] = 7" "elem dZ [1, 1] = 0"
    using e [of "[0, 0]"] e [of "[0, 1]"] e [of "[1, 0]"] e [of "[1, 1]"]
    by (simp_all add: inb_def elem_def)
  with r w show ?thesis by blast
qed

subsection \<open>Dense layers\<close>

text \<open>
  C3.  For \<open>dZ\<close> of shape \<open>(n, m)\<close> with \<open>m \<ge> 1\<close>, a cached \<open>A_prev\<close> of shape \<open>(p, m)\<close> and
  \<open>W\<close> of shape \<open>(n, p)\<close>, \<open>linear_backward\<close> returns \<open>dA_prev\<close>, the product of the
  transpose of \<open>W\<close> with \<open>dZ\<close>; \<open>dW\<close>, the product of \<open>dZ\<close> with the transpose of \<open>A_prev\<close>
  divided by \<open>m\<close>; and \<open>db\<close>, the sums of the rows of \<open>dZ\<close> divided by \<open>m\<close>.
\<close>

theorem linear_backward_formulas:
  assumes "wfa dZ" "shape dZ = [n, m]" "wfa A_prev" "shape A_prev = [p, m]"
    and "wfa W" "shape W = [n, p]" "1 \<le> m"
  shows "\<exists>dA_prev dW db. linear_backward dZ [(''A'', A_prev)] W b = Inr (dA_prev, dW, db) \<and>
      wfa dA_prev \<and> shape dA_prev = [p, m] \<and>
      (\<forall>k<p. \<forall>j<m. elem dA_prev [k, j] = (\<Sum>i<n. elem W [i, k] * elem dZ [i, j])) \<and>
      wfa dW \<and> shape dW = [n, p] \<and>
      (\<forall>i<n. \<forall>k<p. elem dW [i, k] = (\<Sum>j<m. elem dZ [i, j] * elem A_prev [k, j]) / real m) \<and>
      wfa db \<and> shape db = [n, 1] \<and>
      (\<forall>i<n. elem db [i, 0] = (\<Sum>j<m. elem dZ [i, j]) / real m)"
  using assms
  by (auto simp: linear_backward_def lookup_def np_dot_2d shape_transpose np_sum1_def
      wf_tabulate wf_amap shape_amap shape_tabulate elem_amap elem_tabulate elem_transpose2
      sum_list_upt)

theorem linear_backward_formulas_witness:
  "wfa \<lparr>shape = [1, 2], data = [1, 2 :: real]\<rparr> \<and> wfa \<lparr>shape = [1, 2], data = [3, 4 :: real]\<rparr> \<and>
   wfa \<lparr>shape = [1, 1], data = [5 :: real]\<rparr> \<and>
   (\<exists>dA_prev dW db.
      linear_backward \<lparr>shape = [1, 2], data = [1, 2]\<rparr> [(''A'', \<lparr>shape = [1, 2], data = [3, 4]\<rparr>)]
        \<lparr>shape = [1, 1], data = [5]\<rparr> \<lparr>shape = [1, 1], data = [0]\<rparr> = Inr (dA_prev, dW, db) \<and>
      elem dA_prev [0, 0] = 5 \<and> elem dA_prev [0, 1] = 10 \<and> elem dW [0, 0] = 11 / 2 \<and>
      elem db [0, 0] = 3 / 2)"
proof -
  let ?dZ = "\<lparr>shape = [1, 2], data = [1, 2 :: real]\<rparr>"
  let ?A = "\<lparr>shape = [1, 2], data = [3, 4 :: real]\<rparr>"
  let ?W = "\<lparr>shape = [1, 1], data = [5 :: real]\<rparr>"
  have w: "wfa ?dZ" "shape ?dZ = [1, 2]" "wfa ?A" "shape ?A = [1, 2]" "wfa ?W" "shape ?W = [1, 1]"
    "1 \<le> (2 :: nat)"
    by (simp_all add: wfa_def)
  have s2: "(\<Sum>j<2. f j) = f 0 + f (1::nat)" for f :: "nat \<Rightarrow> real"
    by (simp add: lessThan_Suc numeral_2_eq_2)
  from linear_backward_formulas [OF w, of "\<lparr>shape = [1, 1], data = [0]\<rparr>"]
  show ?thesis
    apply (elim exE conjE)
    subgoal for dA_prev dW db
      apply (intro conjI w)
      apply (rule exI [of _ dA_prev], rule exI [of _ dW], rule exI [of _ db])
      apply (simp add: elem_def s2)
      done
    done
qed

subsection \<open>Softmax and cross-entropy\<close>

lemma tabulate_cong:
  "(\<And>idx. inb sh idx \<Longrightarrow> f idx = g idx) \<Longrightarrow> tabulate sh f = tabulate sh g"
  by (simp add: tabulate_def inb_unravel)

lemma inb2_cases:
  assumes "inb [n, m] idx"
  obtains i j where "idx = [i, j]" "i < n" "j < m"
proof -
  from assms have "length idx = 2" by (simp add: inb_def list_all2_lengthD)
  then obtain i j where "idx = [i, j]"
    by (metis (no_types, opaque_lifting) length_0_conv length_Suc_conv numeral_2_eq_2)
  with assms that show ?thesis by simp
qed

lemma bshape_same: "bshape xs xs = Some xs"
  by (induction xs) auto

lemma broadcast_shapes_same: "broadcast_shapes sh sh = Some sh"
  by (simp add: broadcast_shapes_def bshape_same)

lemma broadcast_shapes_row: "broadcast_shapes [n, m] [Suc 0, m] = Some [n, m]"
  by (simp add: broadcast_shapes_def)

lemma bidx2_same: "i < n \<Longrightarrow> j < m \<Longrightarrow> bidx [n, m] [i, j] = [i, j]"
  by (auto simp: bidx_def)

lemma bidx2_row: "j < m \<Longrightarrow> bidx [Suc 0, m] [i, j] = [0, j]"
  by (auto simp: bidx_def)

lemma softmax_activation:
  assumes "wfa Z" "shape Z = [n, m]" "0 < n"
  shows "\<exists>mZ ZmZ sumexp.
           np_max0 Z = Inr mZ \<and> np_binop (-) Z mZ = Inr ZmZ \<and>
           np_sum0 (amap exp ZmZ) = Inr sumexp \<and>
           np_binop (/) (amap exp ZmZ) sumexp = Inr (spec_softmax Z)"
proof -
  define M where "M = (\<lambda>j. fold max (map (\<lambda>i. elem Z [i, j]) [1..<n]) (elem Z [0, j]))"
  define mZ where "mZ = tabulate [1, m] (\<lambda>idx. M (idx ! 1))"
  define ZmZ where "ZmZ = tabulate [n, m] (\<lambda>idx. elem Z idx - M (idx ! 1))"
  define sumexp where "sumexp = tabulate [1, m] (\<lambda>idx. \<Sum>k<n. exp (elem Z [k, idx ! 1] - M (idx ! 1)))"
  have 1: "np_max0 Z = Inr mZ"
    using assms(2,3) unfolding np_max0_def mZ_def M_def
    by (auto intro!: tabulate_cong elim!: inb2_cases)
  have 2: "np_binop (-) Z mZ = Inr ZmZ"
    using assms(2) unfolding np_binop_def mZ_def ZmZ_def
    by (auto simp: shape_tabulate broadcast_shapes_row bidx2_same bidx2_row elem_tabulate
        intro!: tabulate_cong elim!: inb2_cases)
  have sh: "shape (amap exp ZmZ) = [n, m]" "wfa ZmZ" "shape ZmZ = [n, m]"
    by (simp_all add: shape_amap ZmZ_def shape_tabulate wf_tabulate)
  have e: "elem (amap exp ZmZ) [i, j] = exp (elem Z [i, j] - M j)" if "i < n" "j < m" for i j
    using that sh by (simp add: elem_amap) (simp add: ZmZ_def elem_tabulate)
  have 3: "np_sum0 (amap exp ZmZ) = Inr sumexp"
    unfolding np_sum0_def sumexp_def using sh
    by (auto simp: sum_list_upt e intro!: tabulate_cong elim!: inb2_cases)
  have pos: "0 < (\<Sum>k<n. exp (elem Z [k, j] - M j))" for j
    using assms(3) by (intro sum_pos) auto
  have 4: "np_binop (/) (amap exp ZmZ) sumexp = Inr (spec_softmax Z)"
    unfolding np_binop_def spec_softmax_def using sh assms(2)
    apply (simp add: sumexp_def shape_tabulate broadcast_shapes_row)
    apply (rule tabulate_cong)
    apply (erule inb2_cases)
    apply (simp add: bidx2_same bidx2_row e elem_tabulate exp_diff sum_divide_distrib [symmetric])
    done
  from 1 2 3 4 show ?thesis by blast
qed

lemma shape_spec_softmax: "shape (spec_softmax Z) = shape Z"
  by (simp add: spec_softmax_def shape_tabulate)

lemma wf_spec_softmax: "wfa (spec_softmax Z)"
  by (simp add: spec_softmax_def wf_tabulate)

lemma elem_spec_softmax:
  "shape Z = [n, m] \<Longrightarrow> i < n \<Longrightarrow> j < m \<Longrightarrow>
   elem (spec_softmax Z) [i, j] = exp (elem Z [i, j]) / (\<Sum>k<n. exp (elem Z [k, j]))"
  by (simp add: spec_softmax_def elem_tabulate)

lemma sum_exp_pos: "0 < (n::nat) \<Longrightarrow> 0 < (\<Sum>k<n. exp (f k :: real))"
  by (intro sum_pos) auto

lemma spec_softmax_pos:
  "shape Z = [n, m] \<Longrightarrow> i < n \<Longrightarrow> j < m \<Longrightarrow> 0 < elem (spec_softmax Z) [i, j]"
  by (simp add: elem_spec_softmax sum_exp_pos)

lemma spec_softmax_column:
  assumes "shape Z = [n, m]" "0 < n" "j < m"
  shows "(\<Sum>i<n. elem (spec_softmax Z) [i, j]) = 1"
proof -
  have "(\<Sum>i<n. elem (spec_softmax Z) [i, j]) =
        (\<Sum>i<n. exp (elem Z [i, j]) / (\<Sum>k<n. exp (elem Z [k, j])))"
    using assms by (intro sum.cong) (simp_all add: elem_spec_softmax)
  also have "\<dots> = (\<Sum>i<n. exp (elem Z [i, j])) / (\<Sum>k<n. exp (elem Z [k, j]))"
    by (rule sum_divide_distrib [symmetric])
  also have "\<dots> = 1"
    using sum_exp_pos [OF assms(2), of "\<lambda>k. elem Z [k, j]"] by simp
  finally show ?thesis .
qed

lemma softmax_forward_unfold:
  assumes "wfa Z" "shape Z = [n, m]" "0 < n"
  shows "softmax_cross_entropy_loss Z Y =
           bindE (mapE (\<lambda>i. bindE (row0_at Y i) (\<lambda>k. bindE (py_index2 (spec_softmax Z) k i)
                               (\<lambda>pos. Inr (elem (spec_softmax Z) pos))))
                    [0..<asize Y])
             (\<lambda>IA. Inr (spec_softmax Z, [(''A'', spec_softmax Z)],
                        neg_mean_log (map (\<lambda>p. (p - 0.5) * 0.9999999999 + 0.5) IA)))"
proof -
  from softmax_activation [OF assms] obtain mZ ZmZ sumexp where
    "np_max0 Z = Inr mZ" "np_binop (-) Z mZ = Inr ZmZ"
    "np_sum0 (amap exp ZmZ) = Inr sumexp"
    "np_binop (/) (amap exp ZmZ) sumexp = Inr (spec_softmax Z)"
    by blast
  then show ?thesis
    by (simp add: softmax_cross_entropy_loss_def Let_def)
qed

lemma softmax_forward_no_rows:
  "shape Z = [0, m] \<Longrightarrow> softmax_cross_entropy_loss Z Y = Inl ValueError"
  by (simp add: softmax_cross_entropy_loss_def np_max0_def)

lemma mapE_char:
  assumes "\<And>x. x \<in> set xs \<Longrightarrow> (bad x \<and> f x = Inl e) \<or> (\<not> bad x \<and> f x = Inr (g x))"
  shows "mapE f xs = (if \<exists>x\<in>set xs. bad x then Inl e else Inr (map g xs))"
  using assms
proof (induction xs)
  case Nil
  then show ?case by simp
next
  case (Cons x xs)
  then have IH: "mapE f xs = (if \<exists>x\<in>set xs. bad x then Inl e else Inr (map g xs))"
    by simp
  from Cons.prems [of x] show ?case
    by (auto simp: IH)
qed

lemma row0_at_row: "shape Y = [1, m] \<Longrightarrow> i < m \<Longrightarrow> row0_at Y i = Inr (elem Y [0, i])"
  by (simp add: row0_at_def)

lemma py_index2_2d:
  "shape A = [n, m] \<Longrightarrow> i < m \<Longrightarrow>
   py_index2 A k i =
     (if - int n \<le> k \<and> k < int n then Inr [nat (if k < 0 then k + int n else k), i]
      else Inl IndexError)"
  by (simp add: py_index2_def)

lemma softmax_labels:
  assumes "shape A = [n, m]" "shape Y = [1, m]"
  shows "mapE (\<lambda>i. bindE (row0_at Y i) (\<lambda>k. bindE (py_index2 A k i) (\<lambda>pos. Inr (elem A pos))))
           [0..<asize Y] =
         (if \<exists>i<m. \<not> label_ok n (elem Y [0, i]) then Inl IndexError
          else Inr (map (\<lambda>i. elem A [label_row n (elem Y [0, i]), i]) [0..<m]))"
proof -
  have sz: "asize Y = m" using assms(2) by (simp add: asize_def)
  have "mapE (\<lambda>i. bindE (row0_at Y i) (\<lambda>k. bindE (py_index2 A k i) (\<lambda>pos. Inr (elem A pos))))
           [0..<m] =
        (if \<exists>i\<in>set [0..<m]. \<not> label_ok n (elem Y [0, i]) then Inl IndexError
          else Inr (map (\<lambda>i. elem A [label_row n (elem Y [0, i]), i]) [0..<m]))"
    using assms
    by (intro mapE_char) (auto simp: row0_at_row py_index2_2d label_ok_def label_row_def)
  then show ?thesis by (simp add: sz Bex_def)
qed


lemma foldE_append: "foldE f (xs @ ys) s = bindE (foldE f xs s) (foldE f ys)"
  by (induction xs arbitrary: s) (auto simp: bindE_def split: sum.splits)

lemma foldE_upt_inv:
  assumes "I 0 s0"
    and "\<And>i s. i < m \<Longrightarrow> I i s \<Longrightarrow> \<exists>s'. f i s = Inr s' \<and> I (Suc i) s'"
  shows "\<exists>s'. foldE f [0..<m] s0 = Inr s' \<and> I m s'"
  using assms(2)
proof (induction m)
  case 0
  with assms(1) show ?case by simp
next
  case (Suc m)
  then obtain s where s: "foldE f [0..<m] s0 = Inr s" "I m s"
    by (metis less_Suc_eq)
  from Suc.prems [of m s] s(2) obtain s' where "f m s = Inr s'" "I (Suc m) s'"
    by auto
  with s show ?case by (simp add: foldE_append)
qed

lemma foldE_char:
  assumes "\<And>x s. x \<in> set xs \<Longrightarrow> I s \<Longrightarrow>
             (bad x \<and> f x s = Inl e) \<or> (\<not> bad x \<and> (\<exists>s'. f x s = Inr s' \<and> I s'))"
    and "I s"
  shows "if \<exists>x\<in>set xs. bad x then foldE f xs s = Inl e else \<exists>s'. foldE f xs s = Inr s' \<and> I s'"
  using assms
proof (induction xs arbitrary: s)
  case Nil
  then show ?case by simp
next
  case (Cons x xs)
  show ?case
  proof (cases "bad x")
    case True
    with Cons.prems(1) [of x s] Cons.prems(2) show ?thesis by auto
  next
    case False
    with Cons.prems(1) [of x s] Cons.prems(2) obtain s' where s': "f x s = Inr s'" "I s'"
      by auto
    have "if \<exists>x\<in>set xs. bad x then foldE f xs s' = Inl e
          else \<exists>s''. foldE f xs s' = Inr s'' \<and> I s''"
      by (rule Cons.IH) (use Cons.prems(1) s'(2) in auto)
    with False s' show ?thesis by auto
  qed
qed

lemma shape_set_elem: "shape (set_elem A idx v) = shape A"
  by (simp add: set_elem_def)

lemma wf_set_elem: "wfa A \<Longrightarrow> wfa (set_elem A idx v)"
  by (simp add: set_elem_def wfa_def)

lemma ravel_inj: "inb sh idx \<Longrightarrow> inb sh idx' \<Longrightarrow> ravel sh idx = ravel sh idx' \<Longrightarrow> idx = idx'"
  by (metis unravel_ravel)

lemma elem_set_elem:
  "wfa A \<Longrightarrow> inb (shape A) idx \<Longrightarrow> inb (shape A) idx' \<Longrightarrow>
   elem (set_elem A idx v) idx' = (if idx' = idx then v else elem A idx')"
  using ravel_less [of "shape A" idx] ravel_less [of "shape A" idx'] ravel_inj [of "shape A" idx' idx]
  by (auto simp: elem_def set_elem_def wfa_def nth_list_update)

lemma softmax_der_labels:
  assumes "shape A = [n, m]" "shape Y = [1, m]"
  shows "if \<exists>i<m. \<not> label_ok n (elem Y [0, i])
         then softmax_cross_entropy_loss_der Y [(''A'', A)] = Inl IndexError
         else \<exists>dZ. softmax_cross_entropy_loss_der Y [(''A'', A)] = Inr dZ \<and> shape dZ = [n, m]"
proof -
  have sz: "asize Y = m" using assms(2) by (simp add: asize_def)
  let ?f = "\<lambda>i dZ. bindE (row0_at Y i) (\<lambda>k. bindE (py_index2 dZ k i) (\<lambda>pos.
                      Inr (set_elem dZ pos (elem dZ pos - 1))))"
  have "if \<exists>i\<in>set [0..<m]. \<not> label_ok n (elem Y [0, i]) then foldE ?f [0..<m] A = Inl IndexError
        else \<exists>dZ. foldE ?f [0..<m] A = Inr dZ \<and> shape dZ = [n, m]"
    by (rule foldE_char [where I = "\<lambda>dZ. shape dZ = [n, m]"])
      (use assms in \<open>auto simp: row0_at_row py_index2_2d label_ok_def shape_set_elem\<close>)
  then show ?thesis
    by (simp add: softmax_cross_entropy_loss_der_def lookup_def sz Bex_def)
qed


text \<open>
  C5.  For a matrix \<open>Z\<close> with at least one row the forward pass of the softmax head
  returns, and whatever labels it is called with, every column of the activation \<open>A\<close> it
  returns sums to 1.  (With no rows \<open>np.max\<close> raises and nothing is returned.)
\<close>

theorem softmax_columns_sum_to_one:
  assumes "wfa Z" "shape Z = [n, m]"
  shows "(0 < n \<longrightarrow> (\<exists>A cache loss. softmax_cross_entropy_loss Z no_labels = Inr (A, cache, loss))) \<and>
         (\<forall>Y A cache loss. softmax_cross_entropy_loss Z Y = Inr (A, cache, loss) \<longrightarrow>
            shape A = [n, m] \<and> (\<forall>j<m. (\<Sum>i<n. elem A [i, j]) = 1))"
proof -
  have 1: "\<exists>A cache loss. softmax_cross_entropy_loss Z no_labels = Inr (A, cache, loss)" if n: "0 < n"
    by (simp add: softmax_forward_unfold [OF assms n] asize_def no_labels_def)
  have 2: "shape A = [n, m] \<and> (\<forall>j<m. (\<Sum>i<n. elem A [i, j]) = 1)"
    if r: "softmax_cross_entropy_loss Z Y = Inr (A, cache, loss)" for Y A cache loss
  proof -
    have n: "0 < n"
    proof (rule ccontr)
      assume "\<not> 0 < n"
      with assms(2) r show False by (simp add: softmax_forward_no_rows)
    qed
    from r have A: "A = spec_softmax Z"
      by (auto simp: softmax_forward_unfold [OF assms n] bindE_def split: sum.splits)
    show ?thesis
      by (simp add: A shape_spec_softmax assms(2) spec_softmax_column [OF assms(2) n])
  qed
  from 1 2 show ?thesis by blast
qed

theorem softmax_columns_sum_to_one_witness:
  "wfa \<lparr>shape = [2, 1], data = [0, 0 :: real]\<rparr> \<and>
   (\<exists>A cache loss. softmax_cross_entropy_loss \<lparr>shape = [2, 1], data = [0, 0]\<rparr> no_labels
        = Inr (A, cache, loss) \<and> shape A = [2, 1] \<and> elem A [0, 0] + elem A [1, 0] = 1)"
proof -
  let ?Z = "\<lparr>shape = [2, 1], data = [0, 0 :: real]\<rparr>"
  have w: "wfa ?Z" "shape ?Z = [2, 1]" by (simp_all add: wfa_def)
  from softmax_columns_sum_to_one [OF w] obtain A cache loss where
    r: "softmax_cross_entropy_loss ?Z no_labels = Inr (A, cache, loss)" by auto
  from softmax_columns_sum_to_one [OF w] r
  have "shape A = [2, 1]" "\<forall>j<1. (\<Sum>i<2. elem A [i, j]) = 1" by blast+
  then have "shape A = [2, 1]" "elem A [0, 0] + elem A [1, 0] = 1"
    by (simp_all add: sum_lessThan_2)
  with r w show ?thesis by blast
qed

text \<open>
  C6.  For \<open>m \<ge> 1\<close> labels, each in \<open>[0, n)\<close>, the loss returned is the negated mean
  over the samples \<open>i\<close> of \<open>ln p'\<^sub>i\<close>, where \<open>p\<^sub>i = A[y\<^sub>i, i]\<close> is the softmax probability
  of the labelled class and \<open>p'\<^sub>i = (p\<^sub>i - 0.5) \<times> 0.9999999999 + 0.5\<close>; every \<open>p'\<^sub>i\<close> is
  positive, so each logarithm is defined.
\<close>

theorem cross_entropy_loss_value:
  assumes "wfa Z" "shape Z = [n, m]" "shape Y = [1, m]" "1 \<le> m"
    and "\<forall>i<m. 0 \<le> elem Y [0, i] \<and> elem Y [0, i] < int n"
  shows "\<exists>A cache loss. softmax_cross_entropy_loss Z Y = Inr (A, cache, Some loss) \<and>
           (\<forall>i<m. \<forall>k<n. elem A [k, i] = exp (elem Z [k, i]) / (\<Sum>l<n. exp (elem Z [l, i]))) \<and>
           (\<forall>i<m. 0 < (elem A [nat (elem Y [0, i]), i] - 0.5) * 0.9999999999 + 0.5) \<and>
           loss = - ((\<Sum>i<m. ln ((elem A [nat (elem Y [0, i]), i] - 0.5) * 0.9999999999 + 0.5))
                      / real m)"
proof -
  let ?A = "spec_softmax Z"
  let ?c = "\<lambda>p::real. (p - 0.5) * 0.9999999999 + 0.5"
  from assms(4,5) have n: "0 < n" by (cases n) auto
  have ok: "\<not> (\<exists>i<m. \<not> label_ok n (elem Y [0, i]))"
    using assms(5) by (auto simp: label_ok_def)
  have row: "label_row n (elem Y [0, i]) = nat (elem Y [0, i])" if "i < m" for i
    using assms(5) that by (auto simp: label_row_def)
  have IA: "map (\<lambda>i. elem ?A [label_row n (elem Y [0, i]), i]) [0..<m] =
            map (\<lambda>i. elem ?A [nat (elem Y [0, i]), i]) [0..<m]"
    by (simp add: row)
  have m: "[0..<m] \<noteq> []" using assms(4) by simp
  have run: "softmax_cross_entropy_loss Z Y =
     Inr (?A, [(''A'', ?A)],
          Some (- ((\<Sum>i<m. ln (?c (elem ?A [nat (elem Y [0, i]), i]))) / real m)))"
    using m
    by (simp add: softmax_forward_unfold [OF assms(1,2) n]
        softmax_labels [OF _ assms(3), of ?A n] shape_spec_softmax assms(2) ok IA
        neg_mean_log_def comp_def sum_list_upt del: upt_eq_Nil_conv)
  have pos: "0 < ?c (elem ?A [nat (elem Y [0, i]), i])" if "i < m" for i
  proof -
    from assms(5) that have "nat (elem Y [0, i]) < n" by auto
    from spec_softmax_pos [OF assms(2) this that] show ?thesis by (simp add: field_simps)
  qed
  show ?thesis
    using run pos elem_spec_softmax [OF assms(2)] by auto
qed


theorem cross_entropy_loss_value_witness:
  "wfa \<lparr>shape = [2, 1], data = [0, 0 :: real]\<rparr> \<and>
   (\<exists>A cache. softmax_cross_entropy_loss \<lparr>shape = [2, 1], data = [0, 0]\<rparr>
        \<lparr>shape = [1, 1], data = [1]\<rparr> = Inr (A, cache, Some (ln 2)))"
proof -
  let ?Z = "\<lparr>shape = [2, 1], data = [0, 0 :: real]\<rparr>"
  let ?Y = "\<lparr>shape = [1, 1], data = [1 :: int]\<rparr>"
  have y: "elem ?Y [0, 0] = 1" by (simp add: elem_def)
  have z: "elem ?Z [0, 0] = 0" "elem ?Z [1, 0] = 0" by (simp_all add: elem_def)
  have w: "wfa ?Z" "shape ?Z = [2, 1]" "shape ?Y = [1, 1]" "1 \<le> (1::nat)"
    "\<forall>i<1. 0 \<le> elem ?Y [0, i] \<and> elem ?Y [0, i] < int 2"
    by (simp_all add: wfa_def elem_def)
  from cross_entropy_loss_value [OF w] obtain A cache loss where
    r: "softmax_cross_entropy_loss ?Z ?Y = Inr (A, cache, Some loss)" and
    e: "\<forall>i<1. \<forall>k<2. elem A [k, i] = exp (elem ?Z [k, i]) / (\<Sum>l<2. exp (elem ?Z [l, i]))" and
    l: "loss = - ((\<Sum>i<1. ln ((elem A [nat (elem ?Y [0, i]), i] - 0.5) * 0.9999999999 + 0.5))
                      / real 1)"
    by blast
  from e [rule_format, of 0 1] have a: "elem A [1, 0] = 1 / 2"
    by (simp add: elem_lit sum_lessThan_2)
  have c: "(elem A [1, 0] - 0.5) * 0.9999999999 + 0.5 = 1 / 2"
    unfolding a by simp
  from l have "loss = - ln ((elem A [1, 0] - 0.5) * 0.9999999999 + 0.5)"
    by (simp add: elem_lit)
  then have "loss = ln 2"
    unfolding c by (simp add: ln_div)
  with r w(1) show ?thesis by blast
qed

text \<open>
  C8, as amended.  The forward pass (with labels) and the backward pass of the softmax
  head raise \<open>IndexError\<close> if and only if some label lies outside \<open>[-n, n)\<close>, where \<open>n\<close>
  is the number of rows of \<open>A\<close>: a label in \<open>[-n, 0)\<close> is a valid Python index that counts
  rows from the end.  When every label lies in \<open>[-n, n)\<close>, and so in particular when
  every label lies in \<open>[0, n)\<close>, both passes return.
\<close>

theorem label_index_error:
  assumes "wfa Z" "shape Z = [n, m]" "0 < n" "shape Y = [1, m]" "shape A = [n, m]"
  shows "(softmax_cross_entropy_loss Z Y = Inl IndexError \<longleftrightarrow>
            (\<exists>i<m. \<not> (- int n \<le> elem Y [0, i] \<and> elem Y [0, i] < int n))) \<and>
         (softmax_cross_entropy_loss_der Y [(''A'', A)] = Inl IndexError \<longleftrightarrow>
            (\<exists>i<m. \<not> (- int n \<le> elem Y [0, i] \<and> elem Y [0, i] < int n))) \<and>
         ((\<forall>i<m. - int n \<le> elem Y [0, i] \<and> elem Y [0, i] < int n) \<longrightarrow>
            (\<exists>r. softmax_cross_entropy_loss Z Y = Inr r) \<and>
            (\<exists>dZ. softmax_cross_entropy_loss_der Y [(''A'', A)] = Inr dZ))"
proof -
  let ?bad = "\<exists>i<m. \<not> label_ok n (elem Y [0, i])"
  have f: "softmax_cross_entropy_loss Z Y =
        (if ?bad then Inl IndexError
         else Inr (spec_softmax Z, [(''A'', spec_softmax Z)],
                neg_mean_log (map (\<lambda>p. (p - 0.5) * 0.9999999999 + 0.5)
                   (map (\<lambda>i. elem (spec_softmax Z) [label_row n (elem Y [0, i]), i]) [0..<m]))))"
    by (simp add: softmax_forward_unfold [OF assms(1-3)]
        softmax_labels [OF _ assms(4), of "spec_softmax Z" n] shape_spec_softmax assms(2))
  note b = softmax_der_labels [OF assms(5,4)]
  have bad: "?bad \<longleftrightarrow> (\<exists>i<m. \<not> (- int n \<le> elem Y [0, i] \<and> elem Y [0, i] < int n))"
    by (simp add: label_ok_def)
  have c1: "softmax_cross_entropy_loss Z Y = Inl IndexError \<longleftrightarrow>
            (\<exists>i<m. \<not> (- int n \<le> elem Y [0, i] \<and> elem Y [0, i] < int n))"
    unfolding bad [symmetric] by (simp add: f)
  have c2: "softmax_cross_entropy_loss_der Y [(''A'', A)] = Inl IndexError \<longleftrightarrow>
            (\<exists>i<m. \<not> (- int n \<le> elem Y [0, i] \<and> elem Y [0, i] < int n))"
    unfolding bad [symmetric] using b by (cases ?bad) (auto split: if_splits)
  have c3: "(\<exists>r. softmax_cross_entropy_loss Z Y = Inr r) \<and>
            (\<exists>dZ. softmax_cross_entropy_loss_der Y [(''A'', A)] = Inr dZ)"
    if "\<forall>i<m. - int n \<le> elem Y [0, i] \<and> elem Y [0, i] < int n"
  proof -
    from that bad have nb: "\<not> ?bad" by blast
    from nb f have "\<exists>r. softmax_cross_entropy_loss Z Y = Inr r" by simp
    moreover from nb b have "\<exists>dZ. softmax_cross_entropy_loss_der Y [(''A'', A)] = Inr dZ"
      by (auto split: if_splits)
    ultimately show ?thesis ..
  qed
  from c1 c2 c3 show ?thesis by (intro conjI impI) (assumption | blast)+
qed

theorem label_index_error_witness:
  "wfa \<lparr>shape = [2, 1], data = [0, 0 :: real]\<rparr> \<and>
   (\<exists>r. softmax_cross_entropy_loss \<lparr>shape = [2, 1], data = [0, 0]\<rparr> \<lparr>shape = [1, 1], data = [- 1]\<rparr>
          = Inr r) \<and>
   (\<exists>dZ. softmax_cross_entropy_loss_der \<lparr>shape = [1, 1], data = [- 1]\<rparr>
          [(''A'', \<lparr>shape = [2, 1], data = [1 / 2, 1 / 2]\<rparr>)] = Inr dZ) \<and>
   softmax_cross_entropy_loss \<lparr>shape = [2, 1], data = [0, 0]\<rparr> \<lparr>shape = [1, 1], data = [2]\<rparr>
          = Inl IndexError"
proof -
  let ?Z = "\<lparr>shape = [2, 1], data = [0, 0 :: real]\<rparr>"
  let ?A = "\<lparr>shape = [2, 1], data = [1 / 2, 1 / 2 :: real]\<rparr>"
  let ?Y = "\<lparr>shape = [1, 1], data = [- 1 :: int]\<rparr>"
  let ?Y2 = "\<lparr>shape = [1, 1], data = [2 :: int]\<rparr>"
  have w: "wfa ?Z" "shape ?Z = [2, 1]" "0 < (2::nat)" by (simp_all add: wfa_def)
  have y: "shape ?Y = [1, 1]" "shape ?Y2 = [1, 1]" and a: "shape ?A = [2, 1]" by simp_all
  have ok: "\<forall>i<1. - int 2 \<le> elem ?Y [0, i] \<and> elem ?Y [0, i] < int 2"
    by (simp add: elem_def)
  have bad: "\<exists>i<1. \<not> (- int 2 \<le> elem ?Y2 [0, i] \<and> elem ?Y2 [0, i] < int 2)"
    by (simp add: elem_def)
  from label_index_error [OF w y(1) a] ok
  have "(\<exists>r. softmax_cross_entropy_loss ?Z ?Y = Inr r) \<and>
        (\<exists>dZ. softmax_cross_entropy_loss_der ?Y [(''A'', ?A)] = Inr dZ)" by blast
  moreover from label_index_error [OF w y(2) a] bad
  have "softmax_cross_entropy_loss ?Z ?Y2 = Inl IndexError" by blast
  ultimately show ?thesis using w(1) by blast
qed

text \<open>
  C8 as stated fails: the label \<open>-1\<close> lies outside \<open>[0, 2)\<close>, yet on a matrix with two
  rows the forward pass does not raise \<open>IndexError\<close>; the label selects the last row.
\<close>

theorem label_index_error_counterexample:
  "\<not> (softmax_cross_entropy_loss \<lparr>shape = [2, 1], data = [0, 0]\<rparr> \<lparr>shape = [1, 1], data = [- 1]\<rparr>
          = Inl IndexError \<longleftrightarrow>
        (\<exists>i<1. \<not> (0 \<le> elem \<lparr>shape = [1, 1], data = [- 1 :: int]\<rparr> [0, i] \<and>
                   elem \<lparr>shape = [1, 1], data = [- 1 :: int]\<rparr> [0, i] < 2)))"
proof -
  let ?Z = "\<lparr>shape = [2, 1], data = [0, 0 :: real]\<rparr>"
  let ?Y = "\<lparr>shape = [1, 1], data = [- 1 :: int]\<rparr>"
  have w: "wfa ?Z" "shape ?Z = [2, 1]" "0 < (2::nat)" by (simp_all add: wfa_def)
  have y: "elem ?Y [0, 0] = - 1" by (simp add: elem_def)
  have l: "mapE (\<lambda>i. bindE (row0_at ?Y i) (\<lambda>k. bindE (py_index2 (spec_softmax ?Z) k i)
                   (\<lambda>pos. Inr (elem (spec_softmax ?Z) pos)))) [0..<asize ?Y] =
         (if \<exists>i<1. \<not> label_ok 2 (elem ?Y [0, i]) then Inl IndexError
          else Inr (map (\<lambda>i. elem (spec_softmax ?Z) [label_row 2 (elem ?Y [0, i]), i]) [0..<1]))"
    by (rule softmax_labels) (simp_all add: shape_spec_softmax)
  have ok: "\<not> (\<exists>i<1. \<not> label_ok 2 (elem ?Y [0, i]))"
    by (simp add: elem_def label_ok_def)
  have "softmax_cross_entropy_loss ?Z ?Y \<noteq> Inl IndexError"
    unfolding softmax_forward_unfold [OF w] l using ok by simp
  moreover have "\<exists>i<1. \<not> (0 \<le> elem ?Y [0, i] \<and> elem ?Y [0, i] < 2)"
    by (simp add: elem_def)
  ultimately show ?thesis by blast
qed

subsection \<open>Parameter update\<close>



lemma bshape_self:
  "bshape xs ys = Some xs \<Longrightarrow>
   length ys \<le> length xs \<and> list_all2 (\<lambda>y x. y = x \<or> y = 1) ys (take (length ys) xs)"
  by (induction xs ys rule: bshape.induct) (auto split: if_splits)

lemma bidx_inb:
  assumes b: "broadcast_shapes sh sh' = Some sh" and i: "inb sh idx"
  shows "inb sh' (bidx sh' idx)"
proof -
  let ?n = "length sh" and ?k = "length sh'"
  from b have "bshape (rev sh) (rev sh') = Some (rev sh)"
    by (auto simp: broadcast_shapes_def)
  from bshape_self [OF this] have le: "?k \<le> ?n"
    and r: "list_all2 (\<lambda>y x. y = x \<or> y = 1) (rev sh') (take ?k (rev sh))"
    by simp_all
  from r have "list_all2 (\<lambda>y x. y = x \<or> y = 1) (rev sh') (rev (drop (?n - ?k) sh))"
    by (simp add: take_rev)
  then have r': "list_all2 (\<lambda>y x. y = x \<or> y = 1) sh' (drop (?n - ?k) sh)"
    by (simp add: list_all2_rev)
  from i have len: "length idx = ?n" by (rule inb_length)
  from i have d: "list_all2 (<) (drop (?n - ?k) idx) (drop (?n - ?k) sh)"
    unfolding inb_def by (rule list_all2_dropI)
  have "list_all2 (<) (map2 (\<lambda>d i. if d = 1 then 0 else i) sh' (drop (?n - ?k) idx)) sh'"
    using r' d le len
    by (auto simp: list_all2_conv_all_nth)
  then show ?thesis by (simp add: inb_def bidx_def len)
qed














subsection \<open>Arrays given by their entries\<close>

lemma inb1 [simp]: "inb [n] [i] \<longleftrightarrow> i < n"
  by (simp add: inb_def)

lemma inb3 [simp]: "inb [n, m, p] [i, j, k] \<longleftrightarrow> i < n \<and> j < m \<and> k < p"
  by (simp add: inb_def)

lemma inb4 [simp]: "inb [n, m, p, q] [i, j, k, l] \<longleftrightarrow> i < n \<and> j < m \<and> k < p \<and> l < q"
  by (simp add: inb_def)

lemma inb1_cases:
  assumes "inb [n] idx"
  obtains i where "idx = [i]" "i < n"
  using assms by (auto simp: inb_def list_all2_Cons2)

lemma inb3_cases:
  assumes "inb [n, m, p] idx"
  obtains i j k where "idx = [i, j, k]" "i < n" "j < m" "k < p"
  using assms by (auto simp: inb_def list_all2_Cons2)

lemma inb4_cases:
  assumes "inb [n, m, p, q] idx"
  obtains i j k l where "idx = [i, j, k, l]" "i < n" "j < m" "k < p" "l < q"
  using assms by (auto simp: inb_def list_all2_Cons2)

lemma shape_tab1: "shape (tab1 n f) = [n]"
  by (simp add: tab1_def shape_tabulate)

lemma shape_tab2: "shape (tab2 n m f) = [n, m]"
  by (simp add: tab2_def shape_tabulate)

lemma shape_tab4: "shape (tab4 n m p q f) = [n, m, p, q]"
  by (simp add: tab4_def shape_tabulate)

lemma wf_tab1: "wfa (tab1 n f)" and wf_tab2: "wfa (tab2 n m g)" and wf_tab4: "wfa (tab4 n m p q h)"
  by (simp_all add: tab1_def tab2_def tab4_def wf_tabulate)

lemma elem_tab1: "i < n \<Longrightarrow> elem (tab1 n f) [i] = f i"
  by (simp add: tab1_def elem_tabulate)

lemma elem_tab2: "i < n \<Longrightarrow> j < m \<Longrightarrow> elem (tab2 n m f) [i, j] = f i j"
  by (simp add: tab2_def elem_tabulate)

lemma elem_tab4:
  "i < n \<Longrightarrow> j < m \<Longrightarrow> k < p \<Longrightarrow> l < q \<Longrightarrow> elem (tab4 n m p q f) [i, j, k, l] = f i j k l"
  by (simp add: tab4_def elem_tabulate)

lemma tab1_cong: "(\<And>i. i < n \<Longrightarrow> f i = g i) \<Longrightarrow> tab1 n f = tab1 n g"
  unfolding tab1_def by (rule tabulate_cong, erule inb1_cases) simp

lemma tab2_cong: "(\<And>i j. i < n \<Longrightarrow> j < m \<Longrightarrow> f i j = g i j) \<Longrightarrow> tab2 n m f = tab2 n m g"
  unfolding tab2_def by (rule tabulate_cong, erule inb2_cases) simp

lemma tab4_cong:
  "(\<And>i j k l. i < n \<Longrightarrow> j < m \<Longrightarrow> k < p \<Longrightarrow> l < q \<Longrightarrow> f i j k l = g i j k l) \<Longrightarrow>
   tab4 n m p q f = tab4 n m p q g"
  unfolding tab4_def by (rule tabulate_cong, erule inb4_cases) simp

lemma tabulate_tab2: "tabulate [n, m] g = tab2 n m (\<lambda>i j. g [i, j])"
  unfolding tab2_def by (rule tabulate_cong, erule inb2_cases) simp

lemma tabulate_tab4: "tabulate [n, m, p, q] g = tab4 n m p q (\<lambda>i j k l. g [i, j, k, l])"
  unfolding tab4_def by (rule tabulate_cong, erule inb4_cases) simp

lemma tabulate_tab1: "tabulate [n] g = tab1 n (\<lambda>i. g [i])"
  unfolding tab1_def by (rule tabulate_cong, erule inb1_cases) simp

lemma amap_tabulate: "amap f (tabulate sh g) = tabulate sh (\<lambda>idx. f (g idx))"
  by (simp add: amap_def tabulate_def)

lemma amap_tab2: "amap f (tab2 n m g) = tab2 n m (\<lambda>i j. f (g i j))"
  by (simp add: tab2_def amap_tabulate)

lemma slice_sample_3d:
  "shape X = [h, w, m] \<Longrightarrow> j < m \<Longrightarrow> slice_sample X j = Inr (tab2 h w (\<lambda>r c. elem X [r, c, j]))"
  by (simp add: slice_sample_def tabulate_tab2)

lemma upt_3: "[0..<3] = [0, 1, 2]"
  by (simp add: upt_rec)

lemma upt_2: "[0..<2] = [0, 1]"
  by (simp add: upt_rec)

lemma np_repeat2_0_tab: "np_repeat2_0 (tab2 n m f) = Inr (tab2 (2 * n) m (\<lambda>k l. f (k div 2) l))"
proof -
  have "tab2 (2 * n) m (\<lambda>k l. elem (tab2 n m f) [k div 2, l]) = tab2 (2 * n) m (\<lambda>k l. f (k div 2) l)"
    by (rule tab2_cong) (simp add: elem_tab2)
  then show ?thesis
    by (simp add: np_repeat2_0_def shape_tab2 tabulate_tab2)
qed

lemma np_repeat2_1_tab: "np_repeat2_1 (tab2 n m f) = Inr (tab2 n (2 * m) (\<lambda>k l. f k (l div 2)))"
proof -
  have "tab2 n (2 * m) (\<lambda>k l. elem (tab2 n m f) [k, l div 2]) = tab2 n (2 * m) (\<lambda>k l. f k (l div 2))"
    by (rule tab2_cong) (simp add: elem_tab2)
  then show ?thesis
    by (simp add: np_repeat2_1_def shape_tab2 tabulate_tab2)
qed

lemma slice_inner_tab: "slice_inner (tab2 n m f) = Inr (tab2 (n - 2) (m - 2) (\<lambda>k l. f (Suc k) (Suc l)))"
proof -
  have "tab2 (n - 2) (m - 2) (\<lambda>k l. elem (tab2 n m f) [Suc k, Suc l]) =
        tab2 (n - 2) (m - 2) (\<lambda>k l. f (Suc k) (Suc l))"
  proof (rule tab2_cong)
    fix i j assume "i < n - 2" "j < m - 2"
    then have "Suc i < n" "Suc j < m" by arith+
    then show "elem (tab2 n m f) [Suc i, Suc j] = f (Suc i) (Suc j)" by (simp add: elem_tab2)
  qed
  then show ?thesis
    by (simp add: slice_inner_def shape_tab2 tabulate_tab2)
qed

lemma np_reshape_split:
  "np_reshape (tab2 (2 * n) (2 * m) f) [n, 2, m, 2] =
     Inr (tab4 n 2 m 2 (\<lambda>r a c b. f (2 * r + a) (2 * c + b)))"
proof -
  let ?T = "tab2 (2 * n) (2 * m) f"
  let ?R = "\<lparr>shape = [n, 2, m, 2], data = data ?T\<rparr>"
  let ?S = "tab4 n 2 m 2 (\<lambda>r a c b. f (2 * r + a) (2 * c + b))"
  have "?R = ?S"
  proof (rule ndarray_eqI)
    show "wfa ?R" using wf_tab2 [of "2 * n" "2 * m" f] by (simp add: wfa_def shape_tab2)
    show "wfa ?S" by (rule wf_tab4)
    show "shape ?R = shape ?S" by (simp add: shape_tab4)
    fix idx assume "inb (shape ?R) idx"
    then have "inb [n, 2, m, 2] idx" by simp
    then obtain r a c b where idx: "idx = [r, a, c, b]" and b: "r < n" "a < 2" "c < m" "b < 2"
      by (rule inb4_cases)
    have "elem ?R idx = data ?T ! ravel [2 * n, 2 * m] [2 * r + a, 2 * c + b]"
      by (simp add: elem_def idx algebra_simps)
    also have "\<dots> = elem ?T [2 * r + a, 2 * c + b]"
      by (simp add: elem_def shape_tab2)
    also have "\<dots> = f (2 * r + a) (2 * c + b)"
      using b by (simp add: elem_tab2)
    also have "\<dots> = elem ?S idx"
      using b by (simp add: elem_tab4 idx)
    finally show "elem ?R idx = elem ?S idx" .
  qed
  then show ?thesis by (simp add: np_reshape_def shape_tab2)
qed

lemma np_reshape_flat:
  "np_reshape (tab2 n m f) [n * m] = Inr (tab1 (n * m) (\<lambda>k. f (k div m) (k mod m)))"
  by (simp add: np_reshape_def shape_tab2 tab2_def tab1_def tabulate_def)

lemma np_reshape_unflat:
  "np_reshape (tab1 (n * m) f) [n, m] = Inr (tab2 n m (\<lambda>r c. f (r * m + c)))"
proof -
  have "map (\<lambda>k. f (unravel [n * m] k ! 0)) [0..<n * m] =
        map (\<lambda>k. f (unravel [n, m] k ! 0 * m + unravel [n, m] k ! 1)) [0..<n * m]"
    by (rule map_cong) simp_all
  then show ?thesis by (simp add: np_reshape_def shape_tab1 tab1_def tab2_def tabulate_def)
qed

lemma np_reshape_id: "np_reshape A (shape A) = Inr A"
  by (simp add: np_reshape_def)

lemma np_max13_tab:
  "np_max13 (tab4 n 2 m 2 f) =
     Inr (tab2 n m (\<lambda>r c. max (f r 1 c 1) (max (f r 1 c 0) (max (f r 0 c 1) (f r 0 c 0)))))"
proof -
  have "tab2 n m (\<lambda>r c. max (elem (tab4 n 2 m 2 f) [r, 1, c, 1]) (max (elem (tab4 n 2 m 2 f) [r, 1, c, 0])
          (max (elem (tab4 n 2 m 2 f) [r, 0, c, 1]) (elem (tab4 n 2 m 2 f) [r, 0, c, 0])))) =
        tab2 n m (\<lambda>r c. max (f r 1 c 1) (max (f r 1 c 0) (max (f r 0 c 1) (f r 0 c 0))))"
    by (rule tab2_cong) (simp add: elem_tab4)
  then show ?thesis
    by (simp add: np_max13_def shape_tab4 tabulate_tab2 upt_2)
qed

lemma bidx_id: "inb sh idx \<Longrightarrow> bidx sh idx = idx"
  using bidx_inb [of sh sh idx]
  by (auto simp: broadcast_shapes_same bidx_def inb_def list_all2_conv_all_nth intro!: nth_equalityI)

lemma np_binop_same_tab:
  "np_binop f (tab2 n m g) (tab2 n m h) = Inr (tab2 n m (\<lambda>i j. f (g i j) (h i j)))"
proof -
  have "tab2 n m (\<lambda>i j. f (elem (tab2 n m g) (bidx [n, m] [i, j])) (elem (tab2 n m h) (bidx [n, m] [i, j]))) =
        tab2 n m (\<lambda>i j. f (g i j) (h i j))"
    by (rule tab2_cong) (simp add: bidx2_same elem_tab2)
  then show ?thesis
    by (simp add: np_binop_def shape_tab2 broadcast_shapes_same tabulate_tab2)
qed

lemma set_plane_tab:
  assumes "shape M = [a, b, c, d]" "i < c" "j < d" "shape E = [a, b]"
  shows "set_plane M i j E =
     Inr (tab4 a b c d (\<lambda>k l f s. if f = i \<and> s = j then elem E [k, l] else elem M [k, l, f, s]))"
proof -
  have "set_plane M i j E =
     Inr (tabulate [a, b, c, d] (\<lambda>idx. if idx ! 2 = i \<and> idx ! 3 = j
            then elem E (bidx (shape E) [idx ! 0, idx ! 1]) else elem M idx))"
    using assms unfolding set_plane_def by (simp add: broadcast_shapes_same)
  also have "tabulate [a, b, c, d] (\<lambda>idx. if idx ! 2 = i \<and> idx ! 3 = j
            then elem E (bidx (shape E) [idx ! 0, idx ! 1]) else elem M idx) =
     tab4 a b c d (\<lambda>k l f s. if f = i \<and> s = j then elem E [k, l] else elem M [k, l, f, s])"
    unfolding tab4_def
    by (rule tabulate_cong, erule inb4_cases) (simp add: assms(4) bidx2_same)
  finally show ?thesis .
qed

lemma set_rows_col_tab:
  assumes "shape A = [n, m]" "j < m" "shape v = [k]" "min hi n - min lo n = k" "k \<noteq> 1"
  shows "set_rows_col A lo hi j v =
     Inr (tab2 n m (\<lambda>r s. if lo \<le> r \<and> r < hi \<and> s = j then elem v [r - lo] else elem A [r, s]))"
proof -
  have "set_rows_col A lo hi j v =
     Inr (tabulate [n, m] (\<lambda>idx. if lo \<le> idx ! 0 \<and> idx ! 0 < hi \<and> idx ! 1 = j
            then elem v [if k = 1 then 0 else idx ! 0 - lo] else elem A idx))"
    using assms(1-4) unfolding set_rows_col_def by simp
  also have "tabulate [n, m] (\<lambda>idx. if lo \<le> idx ! 0 \<and> idx ! 0 < hi \<and> idx ! 1 = j
            then elem v [if k = 1 then 0 else idx ! 0 - lo] else elem A idx) =
     tab2 n m (\<lambda>r s. if lo \<le> r \<and> r < hi \<and> s = j then elem v [r - lo] else elem A [r, s])"
    unfolding tab2_def
    by (rule tabulate_cong, erule inb2_cases) (use assms(5) in simp)
  finally show ?thesis .
qed

subsection \<open>Convolution and pooling, forward\<close>

lemma spec_pool_max4:
  "spec_pool X W b j r c =
     max (spec_conv X W b j (r + 1) (c + 1)) (max (spec_conv X W b j (r + 1) c)
       (max (spec_conv X W b j r (c + 1)) (spec_conv X W b j r c)))"
proof -
  have "{..<2::nat} = {0, 1}" by auto
  then show ?thesis
    by (simp add: spec_pool_def max.commute max.left_commute)
qed

lemma conv_bias:
  assumes "shape W = [3, 3]"
  shows "amap (\<lambda>v. v + b) (conv_valid (tab2 28 28 (\<lambda>r c. elem X [r, c, j])) W) =
         tab2 26 26 (spec_conv X W b j)"
proof -
  define T where "T = tab2 28 28 (\<lambda>r c. elem X [r, c, j])"
  have sh: "shape T = [28, 28]" by (simp add: T_def shape_tab2)
  have e: "(\<Sum>a<3. \<Sum>c<3. elem T [x + a, y + c] * elem W [2 - a, 2 - c]) =
           (\<Sum>a<3. \<Sum>c<3. elem X [x + a, y + c, j] * elem W [2 - a, 2 - c])"
    if "x < 26" "y < 26" for x y
    using that unfolding T_def by (intro sum.cong refl) (simp add: elem_tab2)
  have "conv_valid T W =
        tab2 26 26 (\<lambda>x y. \<Sum>a<3. \<Sum>c<3. elem T [x + a, y + c] * elem W [2 - a, 2 - c])"
    using assms by (simp add: conv_valid_def sh sum_list_upt tabulate_tab2)
  also have "\<dots> = tab2 26 26 (\<lambda>x y. \<Sum>a<3. \<Sum>c<3. elem X [x + a, y + c, j] * elem W [2 - a, 2 - c])"
    by (rule tab2_cong) (simp add: e)
  finally show ?thesis
    unfolding T_def [symmetric] by (simp add: amap_tab2 spec_conv_def [abs_def])
qed

lemma conv_forward_step_run:
  assumes X: "shape X = [28, 28, m]" and j: "j < m" and W: "shape W = [3, 3]" and i: "i < 5"
    and M: "shape masks = [50, 50, 5, m]" and Z: "shape Z = [3125, m]"
  shows "conv_forward_step X W b i j (masks, Z) = Inr
     (tab4 50 50 5 m (\<lambda>k l f s.
        if f = i \<and> s = j
        then (if spec_conv X W b j (Suc k div 2) (Suc l div 2) = spec_pool X W b j (k div 2) (l div 2)
              then 1 else 0)
        else elem masks [k, l, f, s]),
      tab2 3125 m (\<lambda>k s.
        if 625 * i \<le> k \<and> k < 625 * i + 625 \<and> s = j
        then spec_pool X W b j ((k - 625 * i) div 25) ((k - 625 * i) mod 25)
        else elem Z [k, s]))"
proof -
  let ?sc = "spec_conv X W b j" and ?sp = "spec_pool X W b j"
  define Xj where "Xj = tab2 28 28 (\<lambda>r c. elem X [r, c, j])"
  define z1 where "z1 = tab2 26 26 ?sc"
  define z2 where "z2 = tab2 52 26 (\<lambda>k l. ?sc (k div 2) l)"
  define z3 where "z3 = tab2 52 52 (\<lambda>k l. ?sc (k div 2) (l div 2))"
  define z4 where "z4 = tab2 50 50 (\<lambda>k l. ?sc (Suc k div 2) (Suc l div 2))"
  define z5 where "z5 = tab4 25 2 25 2 (\<lambda>r a c d. ?sc (r + a) (c + d))"
  define z6 where "z6 = tab2 25 25 ?sp"
  define zf where "zf = tab1 625 (\<lambda>k. ?sp (k div 25) (k mod 25))"
  define u1 where "u1 = tab2 50 25 (\<lambda>k l. ?sp (k div 2) l)"
  define u2 where "u2 = tab2 50 50 (\<lambda>k l. ?sp (k div 2) (l div 2))"
  define eq where "eq = tab2 50 50 (\<lambda>k l. ?sc (Suc k div 2) (Suc l div 2) = ?sp (k div 2) (l div 2))"
  define Z' where "Z' = tab2 3125 m (\<lambda>k s.
        if 625 * i \<le> k \<and> k < 625 * i + 625 \<and> s = j
        then ?sp ((k - 625 * i) div 25) ((k - 625 * i) mod 25)
        else elem Z [k, s])"
  define M' where "M' = tab4 50 50 5 m (\<lambda>k l f s.
        if f = i \<and> s = j
        then (if ?sc (Suc k div 2) (Suc l div 2) = ?sp (k div 2) (l div 2) then 1 else (0::int))
        else elem masks [k, l, f, s])"
  have s1: "slice_sample X j = Inr Xj"
    unfolding Xj_def by (rule slice_sample_3d [OF X j])
  have s2: "convolve2d Xj W = Inr (conv_valid Xj W)"
    by (simp add: convolve2d_def Xj_def shape_tab2 W)
  have s3: "amap (\<lambda>v. v + b) (conv_valid Xj W) = z1"
    unfolding Xj_def z1_def by (rule conv_bias [OF W])
  have s4: "np_repeat2_0 z1 = Inr z2"
    unfolding z1_def z2_def using np_repeat2_0_tab [of 26 26 ?sc] by simp
  have s5: "np_repeat2_1 z2 = Inr z3"
    unfolding z2_def z3_def using np_repeat2_1_tab [of 52 26 "\<lambda>k l. ?sc (k div 2) l"] by simp
  have s6: "slice_inner z3 = Inr z4"
    unfolding z3_def z4_def using slice_inner_tab [of 52 52 "\<lambda>k l. ?sc (k div 2) (l div 2)"] by simp
  have "np_reshape z4 [25, 2, 25, 2] =
          Inr (tab4 25 2 25 2 (\<lambda>r a c d. ?sc (Suc (2 * r + a) div 2) (Suc (2 * c + d) div 2)))"
    unfolding z4_def
    using np_reshape_split [of 25 25 "\<lambda>k l. ?sc (Suc k div 2) (Suc l div 2)"] by simp
  also have "tab4 25 2 25 2 (\<lambda>r a c d. ?sc (Suc (2 * r + a) div 2) (Suc (2 * c + d) div 2)) = z5"
    unfolding z5_def
  proof (rule tab4_cong)
    fix r a c d :: nat
    assume "a < 2" "d < 2"
    then have "Suc (2 * r + a) div 2 = r + a" "Suc (2 * c + d) div 2 = c + d"
      by arith+
    then show "?sc (Suc (2 * r + a) div 2) (Suc (2 * c + d) div 2) = ?sc (r + a) (c + d)"
      by simp
  qed
  finally have s7: "np_reshape z4 [25, 2, 25, 2] = Inr z5" .
  have s8: "np_max13 z5 = Inr z6"
    unfolding z5_def z6_def using np_max13_tab [of 25 25 "\<lambda>r a c d. ?sc (r + a) (c + d)"]
    by (simp add: spec_pool_max4 [abs_def])
  have s9: "np_reshape z6 [25 * 25] = Inr zf"
    unfolding z6_def zf_def using np_reshape_flat [of 25 25 ?sp] by simp
  have s10: "set_rows_col Z (25 * 25 * i) (25 * 25 * (i + 1)) j zf = Inr Z'"
  proof -
    have lo: "25 * 25 * i = 625 * i" and hi: "25 * 25 * (i + 1) = 625 * i + 625"
      by simp_all
    from i have k: "min (625 * i + 625) 3125 - min (625 * i) 3125 = 625"
      by (simp add: min_def)
    have zs: "shape zf = [625]" by (simp add: zf_def shape_tab1)
    have n1: "(625::nat) \<noteq> 1" by simp
    let ?f = "\<lambda>k. ?sp (k div 25) (k mod 25)"
    have "tab2 3125 m (\<lambda>k s. if 625 * i \<le> k \<and> k < 625 * i + 625 \<and> s = j
                 then elem zf [k - 625 * i] else elem Z [k, s]) =
          tab2 3125 m (\<lambda>k s. if 625 * i \<le> k \<and> k < 625 * i + 625 \<and> s = j
                 then ?f (k - 625 * i) else elem Z [k, s])"
    proof (rule tab2_cong)
      fix k s :: nat
      show "(if 625 * i \<le> k \<and> k < 625 * i + 625 \<and> s = j
                  then elem zf [k - 625 * i] else elem Z [k, s]) =
            (if 625 * i \<le> k \<and> k < 625 * i + 625 \<and> s = j
                  then ?f (k - 625 * i) else elem Z [k, s])"
      proof (cases "625 * i \<le> k \<and> k < 625 * i + 625 \<and> s = j")
        case True
        then have "k - 625 * i < 625" by linarith
        then have "elem zf [k - 625 * i] = ?f (k - 625 * i)"
          unfolding zf_def by (rule elem_tab1)
        with True show ?thesis by (simp only: if_True)
      next
        case False
        then show ?thesis by (simp only: if_False)
      qed
    qed
    with set_rows_col_tab [OF Z j zs k n1] show ?thesis
      unfolding lo hi Z'_def by (simp only:)
  qed
  have s11: "np_reshape z6 [25, 25] = Inr z6"
    using np_reshape_id [of z6] by (simp add: z6_def shape_tab2)
  have s12: "np_repeat2_0 z6 = Inr u1"
    unfolding z6_def u1_def using np_repeat2_0_tab [of 25 25 ?sp] by simp
  have s13: "np_repeat2_1 u1 = Inr u2"
    unfolding u1_def u2_def using np_repeat2_1_tab [of 50 25 "\<lambda>k l. ?sp (k div 2) l"] by simp
  have s14: "np_binop (=) z4 u2 = Inr eq"
    unfolding z4_def u2_def eq_def by (rule np_binop_same_tab)
  have s15: "set_plane masks i j (amap (\<lambda>t. if t then 1 else 0) eq) = Inr M'"
  proof -
    have es: "shape (amap (\<lambda>t. if t then 1 else (0::int)) eq) = [50, 50]"
      by (simp add: shape_amap eq_def shape_tab2)
    have "tab4 50 50 5 m (\<lambda>k l f s. if f = i \<and> s = j
             then elem (amap (\<lambda>t. if t then 1 else 0) eq) [k, l]
             else elem masks [k, l, f, s]) = M'"
      unfolding M'_def eq_def amap_tab2
      by (rule tab4_cong) (simp add: elem_tab2)
    with set_plane_tab [OF M i j es] show ?thesis by simp
  qed
  show ?thesis
    unfolding conv_forward_step_def M'_def [symmetric] Z'_def [symmetric]
    by (simp only: prod.case Let_def bindE_Inr s1 s2 s3 s4 s5 s6 s7 s8 s9 s10 s11 s12 s13 s14 s15)
qed

end
